theory Spec2Isabelle
  imports Complex_Main
begin

section \<open>Float64 values and numpy arrays\<close>

text \<open>
  The source computes on numpy arrays of dtype float64. A finite float is represented by
  the real number it denotes, and the arithmetic of finite values is the exact arithmetic of
  the reals: rounding, overflow of a finite result to an infinity and the sign of zero are
  not represented. The three kinds of special values of IEEE-754 are kept, since numpy
  produces them instead of raising (division by zero, logarithm of zero), and they
  propagate as in IEEE-754.
\<close>

datatype f64 = Fin real | PInf | NInf | NaN

datatype exn = ValueError | IndexError | UnboundLocalError

text \<open>An exception propagates through the rest of a function body.\<close>

definition exn_bind :: "exn + 'a \<Rightarrow> ('a \<Rightarrow> exn + 'b) \<Rightarrow> exn + 'b" where
  "exn_bind m f = (case m of Inl e \<Rightarrow> Inl e | Inr x \<Rightarrow> f x)"

fun f_neg :: "f64 \<Rightarrow> f64" where
  "f_neg (Fin a) = Fin (- a)"
| "f_neg PInf = NInf"
| "f_neg NInf = PInf"
| "f_neg NaN = NaN"

fun f_add :: "f64 \<Rightarrow> f64 \<Rightarrow> f64" where
  "f_add (Fin a) (Fin b) = Fin (a + b)"
| "f_add NaN _ = NaN"
| "f_add _ NaN = NaN"
| "f_add PInf NInf = NaN"
| "f_add NInf PInf = NaN"
| "f_add PInf _ = PInf"
| "f_add _ PInf = PInf"
| "f_add NInf _ = NInf"
| "f_add _ NInf = NInf"

definition f_sub :: "f64 \<Rightarrow> f64 \<Rightarrow> f64" where
  "f_sub a b = f_add a (f_neg b)"

text \<open>The sign of a value that is not NaN: \<open>-1\<close>, \<open>0\<close> or \<open>1\<close>.\<close>

fun f_sgn :: "f64 \<Rightarrow> int" where
  "f_sgn (Fin a) = (if a < 0 then - 1 else if a = 0 then 0 else 1)"
| "f_sgn PInf = 1"
| "f_sgn NInf = - 1"
| "f_sgn NaN = 0"

definition f_inf :: "int \<Rightarrow> f64" where
  "f_inf s = (if s < 0 then NInf else if s = 0 then NaN else PInf)"

fun f_mul :: "f64 \<Rightarrow> f64 \<Rightarrow> f64" where
  "f_mul (Fin a) (Fin b) = Fin (a * b)"
| "f_mul NaN _ = NaN"
| "f_mul _ NaN = NaN"
| "f_mul a b = f_inf (f_sgn a * f_sgn b)"

fun f_div :: "f64 \<Rightarrow> f64 \<Rightarrow> f64" where
  "f_div (Fin a) (Fin b) = (if b = 0 then f_inf (f_sgn (Fin a)) else Fin (a / b))"
| "f_div NaN _ = NaN"
| "f_div _ NaN = NaN"
| "f_div (Fin a) _ = Fin 0"
| "f_div a (Fin b) = f_inf (f_sgn a * (if b < 0 then - 1 else 1))"
| "f_div _ _ = NaN"

fun f_less :: "f64 \<Rightarrow> f64 \<Rightarrow> bool" where
  "f_less (Fin a) (Fin b) = (a < b)"
| "f_less NaN _ = False"
| "f_less _ NaN = False"
| "f_less NInf b = (b \<noteq> NInf)"
| "f_less a PInf = (a \<noteq> PInf)"
| "f_less _ _ = False"

text \<open>numpy's reductions \<open>min\<close> and \<open>max\<close> propagate NaN.\<close>

definition f_min :: "f64 \<Rightarrow> f64 \<Rightarrow> f64" where
  "f_min a b = (if a = NaN \<or> b = NaN then NaN else if f_less b a then b else a)"

definition f_max :: "f64 \<Rightarrow> f64 \<Rightarrow> f64" where
  "f_max a b = (if a = NaN \<or> b = NaN then NaN else if f_less a b then b else a)"

fun f_exp :: "f64 \<Rightarrow> f64" where
  "f_exp (Fin a) = Fin (exp a)"
| "f_exp PInf = PInf"
| "f_exp NInf = Fin 0"
| "f_exp NaN = NaN"

fun f_log :: "f64 \<Rightarrow> f64" where
  "f_log (Fin a) = (if 0 < a then Fin (ln a) else if a = 0 then NInf else NaN)"
| "f_log PInf = PInf"
| "f_log NInf = NaN"
| "f_log NaN = NaN"

fun f_sqrt :: "f64 \<Rightarrow> f64" where
  "f_sqrt (Fin a) = (if 0 \<le> a then Fin (sqrt a) else NaN)"
| "f_sqrt PInf = PInf"
| "f_sqrt NInf = NaN"
| "f_sqrt NaN = NaN"

definition f_sum :: "f64 list \<Rightarrow> f64" where
  "f_sum xs = foldr f_add xs (Fin 0)"

text \<open>
  A two-dimensional array is the list of its rows. Its shape is read off the first row,
  and a list with rows of different lengths is no array: \<open>np.asarray\<close> rejects it.
  An array without rows has shape \<open>(0, 0)\<close> here.
\<close>

type_synonym vec = "f64 list"
type_synonym ndarray = "f64 list list"

definition nrows :: "ndarray \<Rightarrow> nat" where
  "nrows A = length A"

definition ncols :: "ndarray \<Rightarrow> nat" where
  "ncols A = (case A of [] \<Rightarrow> 0 | r # _ \<Rightarrow> length r)"

definition is_array :: "ndarray \<Rightarrow> bool" where
  "is_array A = list_all (\<lambda>r. length r = ncols A) A"

definition np_asarray :: "ndarray \<Rightarrow> exn + ndarray" where
  "np_asarray A = (if is_array A then Inr A else Inl ValueError)"

definition np_transpose :: "ndarray \<Rightarrow> ndarray" where
  "np_transpose A = map (\<lambda>j. map (\<lambda>r. r ! j) A) [0..<ncols A]"

text \<open>\<open>np.dot\<close> of two matrices raises ValueError when the inner dimensions differ.\<close>

definition np_dot :: "ndarray \<Rightarrow> ndarray \<Rightarrow> exn + ndarray" where
  "np_dot A B =
     (if is_array A \<and> is_array B \<and> ncols A = nrows B
      then Inr (map (\<lambda>r. map (\<lambda>c. f_sum (map2 f_mul r c)) (np_transpose B)) A)
      else Inl ValueError)"

definition np_neg :: "ndarray \<Rightarrow> ndarray" where
  "np_neg A = map (map f_neg) A"

text \<open>The reductions \<open>A.min()\<close> and \<open>A.max()\<close> raise ValueError on an array without entries.\<close>

definition np_min :: "ndarray \<Rightarrow> exn + f64" where
  "np_min A = (case concat A of [] \<Rightarrow> Inl ValueError | x # xs \<Rightarrow> Inr (fold f_min xs x))"

definition np_max :: "ndarray \<Rightarrow> exn + f64" where
  "np_max A = (case concat A of [] \<Rightarrow> Inl ValueError | x # xs \<Rightarrow> Inr (fold f_max xs x))"

text \<open>An array and a scalar: the scalar is applied to every entry.\<close>

definition sub_scalar :: "ndarray \<Rightarrow> f64 \<Rightarrow> ndarray" where
  "sub_scalar A s = map (map (\<lambda>x. f_sub x s)) A"

definition mul_scalar :: "ndarray \<Rightarrow> f64 \<Rightarrow> ndarray" where
  "mul_scalar A s = map (map (\<lambda>x. f_mul x s)) A"

definition scalar_mul :: "f64 \<Rightarrow> ndarray \<Rightarrow> ndarray" where
  "scalar_mul s A = map (map (\<lambda>x. f_mul s x)) A"

definition div_scalar :: "ndarray \<Rightarrow> f64 \<Rightarrow> ndarray" where
  "div_scalar A s = map (map (\<lambda>x. f_div x s)) A"

text \<open>
  Two arrays are combined entry by entry after broadcasting: along each axis the lengths
  must be equal, or one of them is 1 and that operand is repeated along the axis;
  otherwise ValueError is raised.
\<close>

definition broadcastable :: "nat \<Rightarrow> nat \<Rightarrow> bool" where
  "broadcastable m n = (m = n \<or> m = 1 \<or> n = 1)"

definition broadcast2 :: "('a \<Rightarrow> 'b \<Rightarrow> 'c) \<Rightarrow> 'a list \<Rightarrow> 'b list \<Rightarrow> 'c list" where
  "broadcast2 g xs ys =
     (if length xs = length ys then map2 g xs ys
      else if length xs = 1 then map (\<lambda>y. g (hd xs) y) ys
      else map (\<lambda>x. g x (hd ys)) xs)"

definition elementwise :: "(f64 \<Rightarrow> f64 \<Rightarrow> f64) \<Rightarrow> ndarray \<Rightarrow> ndarray \<Rightarrow> exn + ndarray" where
  "elementwise f A B =
     (if is_array A \<and> is_array B \<and> broadcastable (nrows A) (nrows B)
         \<and> broadcastable (ncols A) (ncols B)
      then Inr (broadcast2 (broadcast2 f) A B)
      else Inl ValueError)"

text \<open>
  The in-place addition \<open>A += B\<close> stores the sum in \<open>A\<close>: \<open>B\<close> is broadcast to the
  shape of \<open>A\<close>, and ValueError is raised when the sum would have another shape.
\<close>

definition np_iadd :: "ndarray \<Rightarrow> ndarray \<Rightarrow> exn + ndarray" where
  "np_iadd A B =
     (if is_array A \<and> is_array B \<and> (nrows B = nrows A \<or> nrows B = 1)
         \<and> (ncols B = ncols A \<or> ncols B = 1)
      then Inr (broadcast2 (broadcast2 f_add) A B)
      else Inl ValueError)"

definition np_multiply :: "ndarray \<Rightarrow> ndarray \<Rightarrow> exn + ndarray" where
  "np_multiply A B = elementwise f_mul A B"

definition np_divide :: "ndarray \<Rightarrow> ndarray \<Rightarrow> exn + ndarray" where
  "np_divide A B = elementwise f_div A B"

definition np_add :: "ndarray \<Rightarrow> ndarray \<Rightarrow> exn + ndarray" where
  "np_add A B = elementwise f_add A B"

definition np_subtract :: "ndarray \<Rightarrow> ndarray \<Rightarrow> exn + ndarray" where
  "np_subtract A B = elementwise f_sub A B"

definition np_outer :: "vec \<Rightarrow> vec \<Rightarrow> ndarray" where
  "np_outer p q = map (\<lambda>a. map (\<lambda>b. f_mul a b) q) p"

definition np_exp :: "ndarray \<Rightarrow> ndarray" where
  "np_exp A = map (map f_exp) A"

text \<open>\<open>np.linalg.norm\<close> of a matrix is its Frobenius norm.\<close>

definition np_linalg_norm :: "ndarray \<Rightarrow> f64" where
  "np_linalg_norm A = f_sqrt (f_sum (map (\<lambda>x. f_mul x x) (concat A)))"

section \<open>Tensor loss builders\<close>

definition tensor_square_loss_mine :: "ndarray \<Rightarrow> ndarray \<Rightarrow> ndarray \<Rightarrow> exn + ndarray" where
  "tensor_square_loss_mine C1 C2 T =
     exn_bind (np_asarray C1) (\<lambda>C1.
     exn_bind (np_asarray C2) (\<lambda>C2.
     exn_bind (np_asarray T) (\<lambda>T.
     exn_bind (np_dot C1 T) (\<lambda>C1T.
     exn_bind (np_dot C1T (np_transpose C2)) (\<lambda>d.
     let tens = np_neg d in
     exn_bind (np_min tens) (\<lambda>m.
     Inr (sub_scalar tens m)))))))"

definition tensor_square_loss_mine_combined ::
  "ndarray \<Rightarrow> ndarray \<Rightarrow> ndarray \<Rightarrow> ndarray \<Rightarrow> f64 \<Rightarrow> exn + ndarray" where
  "tensor_square_loss_mine_combined C1 C2 T cost_mat alpha_linear =
     exn_bind (np_asarray C1) (\<lambda>C1.
     exn_bind (np_asarray C2) (\<lambda>C2.
     exn_bind (np_asarray T) (\<lambda>T.
     exn_bind (np_dot C1 T) (\<lambda>C1T.
     exn_bind (np_dot C1T (np_transpose C2)) (\<lambda>temp_here_nonlinear.
     exn_bind (np_multiply cost_mat T) (\<lambda>prod.
     exn_bind (np_max temp_here_nonlinear) (\<lambda>mx.
     let temp_here_linear = mul_scalar prod mx in
     exn_bind (np_subtract (np_neg temp_here_nonlinear) (scalar_mul alpha_linear temp_here_linear))
       (\<lambda>tens.
     exn_bind (np_min tens) (\<lambda>m.
     Inr (sub_scalar tens m))))))))))"

text \<open>
  In the KL variant \<open>h2(b) = log(b + 1e-15)\<close> is applied to every entry of \<open>C2\<close>; the
  nested function \<open>f1\<close>, the other one that takes a logarithm, is never called.
\<close>

definition kl_h2 :: "ndarray \<Rightarrow> ndarray" where
  "kl_h2 b = map (map (\<lambda>x. f_log (f_add x (Fin (1 / 10 ^ 15))))) b"

definition tensor_kl_loss_mine :: "ndarray \<Rightarrow> ndarray \<Rightarrow> ndarray \<Rightarrow> exn + ndarray" where
  "tensor_kl_loss_mine C1 C2 T =
     exn_bind (np_asarray C1) (\<lambda>C1.
     exn_bind (np_asarray C2) (\<lambda>C2.
     exn_bind (np_asarray T) (\<lambda>T.
     exn_bind (np_dot C1 T) (\<lambda>C1T.
     exn_bind (np_dot C1T (np_transpose (kl_h2 C2))) (\<lambda>d.
     let tens = np_neg d in
     exn_bind (np_min tens) (\<lambda>m.
     Inr (sub_scalar tens m)))))))"

section \<open>Marginal update formulas\<close>

text \<open>
  The list comprehension computes \<open>lambdas[s] * np.dot(T[s].T, Cs[s]).dot(T[s])\<close> for
  \<open>s = 0, ..., len(T) - 1\<close>; an index beyond \<open>lambdas\<close> or \<open>Cs\<close> raises IndexError.
\<close>

definition update_term :: "f64 list \<Rightarrow> ndarray list \<Rightarrow> ndarray list \<Rightarrow> nat \<Rightarrow> exn + ndarray" where
  "update_term lambdas T Cs s =
     (if s < length lambdas then
        (if s < length Cs then
           exn_bind (np_dot (np_transpose (T ! s)) (Cs ! s)) (\<lambda>d.
           exn_bind (np_dot d (T ! s)) (\<lambda>e.
           Inr (scalar_mul (lambdas ! s) e)))
         else Inl IndexError)
      else Inl IndexError)"

fun exn_map :: "('a \<Rightarrow> exn + 'b) \<Rightarrow> 'a list \<Rightarrow> exn + 'b list" where
  "exn_map f [] = Inr []"
| "exn_map f (x # xs) =
     exn_bind (f x) (\<lambda>y. exn_bind (exn_map f xs) (\<lambda>ys. Inr (y # ys)))"

text \<open>
  Python's \<open>sum\<close> starts from the integer 0 and adds the terms from the left, so the
  running sum is a scalar until the first term has been added.
\<close>

datatype np_value = Scalar f64 | Array ndarray

fun py_sum :: "np_value \<Rightarrow> ndarray list \<Rightarrow> exn + np_value" where
  "py_sum acc [] = Inr acc"
| "py_sum (Scalar c) (t # ts) = py_sum (Array (map (map (\<lambda>x. f_add c x)) t)) ts"
| "py_sum (Array a) (t # ts) = exn_bind (np_add a t) (\<lambda>a'. py_sum (Array a') ts)"

definition np_divide_value :: "np_value \<Rightarrow> ndarray \<Rightarrow> exn + ndarray" where
  "np_divide_value v B =
     (case v of Scalar c \<Rightarrow> Inr (map (map (\<lambda>x. f_div c x)) B) | Array a \<Rightarrow> np_divide a B)"

definition update_square_loss_mine ::
  "vec \<Rightarrow> f64 list \<Rightarrow> ndarray list \<Rightarrow> ndarray list \<Rightarrow> exn + ndarray" where
  "update_square_loss_mine p lambdas T Cs =
     exn_bind (exn_map (update_term lambdas T Cs) [0..<length T]) (\<lambda>terms.
     exn_bind (py_sum (Scalar (Fin 0)) terms) (\<lambda>tmpsum.
     let ppt = np_outer p p in
     np_divide_value tmpsum ppt))"

definition update_kl_loss_mine ::
  "vec \<Rightarrow> f64 list \<Rightarrow> ndarray list \<Rightarrow> ndarray list \<Rightarrow> exn + ndarray" where
  "update_kl_loss_mine p lambdas T Cs =
     exn_bind (exn_map (update_term lambdas T Cs) [0..<length T]) (\<lambda>terms.
     exn_bind (py_sum (Scalar (Fin 0)) terms) (\<lambda>tmpsum.
     let ppt = np_outer p p in
     exn_bind (np_divide_value tmpsum ppt) (\<lambda>quot.
     Inr (np_exp quot))))"

section \<open>The fixed-point drivers\<close>

text \<open>
  The entropic solver \<open>sinkhorn\<close> is imported from another library; the drivers take it
  as the parameter \<open>solver\<close>, which may raise. The local variables of a driver that the
  loop updates form the state below; \<open>tens\<close> is unbound until its first assignment. The
  argument \<open>log\<close> is either false (\<open>None\<close>) or a dictionary whose entry \<open>'err'\<close> is the
  list of recorded errors. Progress output (\<open>verbose\<close>) is not represented.
\<close>

type_synonym sinkhorn = "vec \<Rightarrow> vec \<Rightarrow> ndarray \<Rightarrow> f64 \<Rightarrow> exn + ndarray"

record gw_state =
  st_T :: ndarray
  st_tens :: "ndarray option"
  st_cpt :: int
  st_err :: f64
  st_log :: "f64 list option"

text \<open>The expression \<open>cost_mat / cost_mat.max()\<close>.\<close>

definition normalized :: "ndarray \<Rightarrow> exn + ndarray" where
  "normalized cost_mat = exn_bind (np_max cost_mat) (\<lambda>m. Inr (div_scalar cost_mat m))"

text \<open>
  The end of each loop body: on every tenth iteration the error is recomputed and, when
  logging is enabled, appended to the log.
\<close>

definition check_error :: "ndarray \<Rightarrow> ndarray \<Rightarrow> gw_state \<Rightarrow> exn + gw_state" where
  "check_error T Tprev st =
     (if st_cpt st mod 10 = 0 then
        exn_bind (np_subtract T Tprev) (\<lambda>d.
        let err = np_linalg_norm d in
        Inr (st\<lparr>st_err := err,
                 st_log := (case st_log st of None \<Rightarrow> None | Some es \<Rightarrow> Some (es @ [err]))\<rparr>))
      else Inr st)"

text \<open>
  The loop \<open>while (err > tol and cpt < max_iter)\<close>; \<open>body\<close> is the loop body up to, and
  without, the final \<open>cpt += 1\<close>.
\<close>

function gw_while :: "(gw_state \<Rightarrow> exn + gw_state) \<Rightarrow> f64 \<Rightarrow> int \<Rightarrow> gw_state \<Rightarrow> exn + gw_state" where
  "gw_while body tol max_iter st =
     (if f_less tol (st_err st) \<and> st_cpt st < max_iter then
        (case body st of
           Inl e \<Rightarrow> Inl e
         | Inr st' \<Rightarrow> gw_while body tol max_iter (st'\<lparr>st_cpt := st_cpt st + 1\<rparr>))
      else Inr st)"
  by pat_completeness auto
termination
  by (relation "measure (\<lambda>(body, tol, max_iter, st). nat (max_iter - st_cpt st))") auto

declare gw_while.simps [simp del]

text \<open>The initial state: \<open>T = np.outer(p, q)\<close>, \<open>cpt = 0\<close>, \<open>err = 1\<close>.\<close>

definition gw_init :: "vec \<Rightarrow> vec \<Rightarrow> f64 list option \<Rightarrow> gw_state" where
  "gw_init p q log0 =
     \<lparr>st_T = np_outer p q, st_tens = None, st_cpt = 0, st_err = Fin 1, st_log = log0\<rparr>"

text \<open>The end of each driver: \<open>return T, log\<close> when logging is enabled, else \<open>return T\<close>.\<close>

definition gw_return :: "gw_state \<Rightarrow> ndarray \<times> f64 list option" where
  "gw_return st = (st_T st, st_log st)"

text \<open>
  The assignment \<open>if loss_fun == 'square_loss': tens = ...\<close> followed by the first read of
  \<open>tens\<close>, which raises UnboundLocalError when nothing has been assigned.
\<close>

definition read_local :: "'a option \<Rightarrow> exn + 'a" where
  "read_local v = (case v of None \<Rightarrow> Inl UnboundLocalError | Some x \<Rightarrow> Inr x)"

subsection \<open>Additive policy\<close>

definition adjusted_body ::
  "sinkhorn \<Rightarrow> ndarray \<Rightarrow> ndarray \<Rightarrow> ndarray \<Rightarrow> f64 \<Rightarrow> vec \<Rightarrow> vec \<Rightarrow> string \<Rightarrow> f64
     \<Rightarrow> gw_state \<Rightarrow> exn + gw_state" where
  "adjusted_body solver cost_mat1 C1 C2 alpha_linear p q loss_fun epsilon st =
     (let Tprev = st_T st in
      exn_bind (if loss_fun = ''square_loss''
                then exn_bind (tensor_square_loss_mine C1 C2 (st_T st)) (\<lambda>t. Inr (Some t))
                else Inr (st_tens st)) (\<lambda>tens_var.
      exn_bind (read_local tens_var) (\<lambda>tens.
      exn_bind (np_max tens) (\<lambda>mx.
      let cost_mat2 = mul_scalar cost_mat1 mx in
      exn_bind (np_iadd tens (scalar_mul alpha_linear cost_mat2)) (\<lambda>tens.
      exn_bind (solver p q tens epsilon) (\<lambda>T.
      check_error T Tprev (st\<lparr>st_T := T, st_tens := Some tens\<rparr>)))))))"

definition adjusted_run ::
  "sinkhorn \<Rightarrow> ndarray \<Rightarrow> ndarray \<Rightarrow> ndarray \<Rightarrow> f64 \<Rightarrow> vec \<Rightarrow> vec \<Rightarrow> string \<Rightarrow> f64
     \<Rightarrow> int \<Rightarrow> f64 \<Rightarrow> f64 list option \<Rightarrow> exn + gw_state" where
  "adjusted_run solver cost_mat C1 C2 alpha_linear p q loss_fun epsilon max_iter tol log0 =
     exn_bind (np_asarray C1) (\<lambda>C1.
     exn_bind (np_asarray C2) (\<lambda>C2.
     exn_bind (np_asarray cost_mat) (\<lambda>cost_mat.
     exn_bind (normalized cost_mat) (\<lambda>cost_mat1.
     gw_while (adjusted_body solver cost_mat1 C1 C2 alpha_linear p q loss_fun epsilon)
       tol max_iter (gw_init p q log0)))))"

definition gromov_wasserstein_adjusted ::
  "sinkhorn \<Rightarrow> ndarray \<Rightarrow> ndarray \<Rightarrow> ndarray \<Rightarrow> f64 \<Rightarrow> vec \<Rightarrow> vec \<Rightarrow> string \<Rightarrow> f64
     \<Rightarrow> int \<Rightarrow> f64 \<Rightarrow> f64 list option \<Rightarrow> exn + ndarray \<times> f64 list option" where
  "gromov_wasserstein_adjusted solver cost_mat C1 C2 alpha_linear p q loss_fun epsilon
       max_iter tol log0 =
     exn_bind (adjusted_run solver cost_mat C1 C2 alpha_linear p q loss_fun epsilon
                 max_iter tol log0) (\<lambda>st.
     Inr (gw_return st))"

subsection \<open>Normalized-blend policy\<close>

definition norm_body ::
  "sinkhorn \<Rightarrow> ndarray \<Rightarrow> ndarray \<Rightarrow> ndarray \<Rightarrow> f64 \<Rightarrow> vec \<Rightarrow> vec \<Rightarrow> string \<Rightarrow> f64
     \<Rightarrow> gw_state \<Rightarrow> exn + gw_state" where
  "norm_body solver cost_mat_norm C1 C2 alpha_linear p q loss_fun epsilon st =
     (let Tprev = st_T st in
      exn_bind (if loss_fun = ''square_loss''
                then exn_bind (tensor_square_loss_mine C1 C2 (st_T st)) (\<lambda>t. Inr (Some t))
                else Inr (st_tens st)) (\<lambda>tens_var.
      exn_bind (read_local tens_var) (\<lambda>tens.
      exn_bind (np_add (scalar_mul (f_sub (Fin 1) alpha_linear) tens)
                       (scalar_mul alpha_linear cost_mat_norm)) (\<lambda>tens_all.
      exn_bind (solver p q tens_all epsilon) (\<lambda>T.
      check_error T Tprev (st\<lparr>st_T := T, st_tens := Some tens\<rparr>))))))"

text \<open>The driver after the guarded normalization, as a function of \<open>cost_mat_norm\<close>.\<close>

definition norm_solve ::
  "sinkhorn \<Rightarrow> ndarray \<Rightarrow> ndarray \<Rightarrow> ndarray \<Rightarrow> f64 \<Rightarrow> vec \<Rightarrow> vec \<Rightarrow> string \<Rightarrow> f64
     \<Rightarrow> int \<Rightarrow> f64 \<Rightarrow> f64 list option \<Rightarrow> exn + gw_state" where
  "norm_solve solver cost_mat_norm C1 C2 alpha_linear p q loss_fun epsilon max_iter tol log0 =
     (if alpha_linear = Fin 1 then
        exn_bind (solver p q cost_mat_norm epsilon) (\<lambda>T.
        Inr ((gw_init p q log0)\<lparr>st_T := T\<rparr>))
      else
        gw_while (norm_body solver cost_mat_norm C1 C2 alpha_linear p q loss_fun epsilon)
          tol max_iter (gw_init p q log0))"

definition norm_run ::
  "sinkhorn \<Rightarrow> ndarray \<Rightarrow> ndarray \<Rightarrow> ndarray \<Rightarrow> f64 \<Rightarrow> vec \<Rightarrow> vec \<Rightarrow> string \<Rightarrow> f64
     \<Rightarrow> int \<Rightarrow> f64 \<Rightarrow> f64 list option \<Rightarrow> exn + gw_state" where
  "norm_run solver cost_mat C1 C2 alpha_linear p q loss_fun epsilon max_iter tol log0 =
     exn_bind (np_asarray C1) (\<lambda>C1.
     exn_bind (np_asarray C2) (\<lambda>C2.
     exn_bind (np_asarray cost_mat) (\<lambda>cost_mat.
     let cost_mat_norm = (case normalized cost_mat of Inl e \<Rightarrow> cost_mat | Inr n \<Rightarrow> n) in
     norm_solve solver cost_mat_norm C1 C2 alpha_linear p q loss_fun epsilon max_iter tol log0)))"

definition gromov_wasserstein_adjusted_norm ::
  "sinkhorn \<Rightarrow> ndarray \<Rightarrow> ndarray \<Rightarrow> ndarray \<Rightarrow> f64 \<Rightarrow> vec \<Rightarrow> vec \<Rightarrow> string \<Rightarrow> f64
     \<Rightarrow> int \<Rightarrow> f64 \<Rightarrow> f64 list option \<Rightarrow> exn + ndarray \<times> f64 list option" where
  "gromov_wasserstein_adjusted_norm solver cost_mat C1 C2 alpha_linear p q loss_fun epsilon
       max_iter tol log0 =
     exn_bind (norm_run solver cost_mat C1 C2 alpha_linear p q loss_fun epsilon
                 max_iter tol log0) (\<lambda>st.
     Inr (gw_return st))"

subsection \<open>Combined-tensor policy\<close>

definition combined_body ::
  "sinkhorn \<Rightarrow> ndarray \<Rightarrow> ndarray \<Rightarrow> ndarray \<Rightarrow> f64 \<Rightarrow> vec \<Rightarrow> vec \<Rightarrow> string \<Rightarrow> f64
     \<Rightarrow> gw_state \<Rightarrow> exn + gw_state" where
  "combined_body solver cost_mat C1 C2 alpha_linear p q loss_fun epsilon st =
     (let Tprev = st_T st in
      exn_bind (if loss_fun = ''square_loss''
                then exn_bind (tensor_square_loss_mine_combined C1 C2 (st_T st) cost_mat
                                 alpha_linear) (\<lambda>t. Inr (Some t))
                else Inr (st_tens st)) (\<lambda>tens_var.
      exn_bind (read_local tens_var) (\<lambda>tens.
      exn_bind (solver p q tens epsilon) (\<lambda>T.
      check_error T Tprev (st\<lparr>st_T := T, st_tens := Some tens\<rparr>)))))"

definition combined_run ::
  "sinkhorn \<Rightarrow> ndarray \<Rightarrow> ndarray \<Rightarrow> ndarray \<Rightarrow> f64 \<Rightarrow> vec \<Rightarrow> vec \<Rightarrow> string \<Rightarrow> f64
     \<Rightarrow> int \<Rightarrow> f64 \<Rightarrow> f64 list option \<Rightarrow> exn + gw_state" where
  "combined_run solver cost_mat C1 C2 alpha_linear p q loss_fun epsilon max_iter tol log0 =
     exn_bind (np_asarray C1) (\<lambda>C1.
     exn_bind (np_asarray C2) (\<lambda>C2.
     exn_bind (np_asarray cost_mat) (\<lambda>cost_mat.
     exn_bind (normalized cost_mat) (\<lambda>cost_mat1.
     gw_while (combined_body solver cost_mat C1 C2 alpha_linear p q loss_fun epsilon)
       tol max_iter (gw_init p q log0)))))"

definition gromov_wasserstein_adjusted_combined ::
  "sinkhorn \<Rightarrow> ndarray \<Rightarrow> ndarray \<Rightarrow> ndarray \<Rightarrow> f64 \<Rightarrow> vec \<Rightarrow> vec \<Rightarrow> string \<Rightarrow> f64
     \<Rightarrow> int \<Rightarrow> f64 \<Rightarrow> f64 list option \<Rightarrow> exn + ndarray \<times> f64 list option" where
  "gromov_wasserstein_adjusted_combined solver cost_mat C1 C2 alpha_linear p q loss_fun epsilon
       max_iter tol log0 =
     exn_bind (combined_run solver cost_mat C1 C2 alpha_linear p q loss_fun epsilon
                 max_iter tol log0) (\<lambda>st.
     Inr (gw_return st))"

section \<open>Specification-level notions\<close>

text \<open>
  The cost matrices, couplings and marginals of the specification are real-valued. The
  statements below about values quantify over real matrices and embed them into float64
  arrays.
\<close>

text \<open>
  A real matrix as an array of finite floats.
\<close>

definition of_reals :: "real list list \<Rightarrow> ndarray" where
  "of_reals A = map (map Fin) A"

text \<open>
  A list of \<open>r\<close> rows of length \<open>c\<close>.
\<close>

definition has_shape :: "nat \<Rightarrow> nat \<Rightarrow> 'a list list \<Rightarrow> bool" where
  "has_shape r c A = (length A = r \<and> list_all (\<lambda>row. length row = c) A)"

text \<open>
  The \<open>r\<close> by \<open>c\<close> matrix with entry \<open>f i j\<close> in row \<open>i\<close> and column \<open>j\<close>.
\<close>

definition matrix_of :: "nat \<Rightarrow> nat \<Rightarrow> (nat \<Rightarrow> nat \<Rightarrow> 'a) \<Rightarrow> 'a list list" where
  "matrix_of r c f = map (\<lambda>i. map (\<lambda>j. f i j) [0..<c]) [0..<r]"

text \<open>
  Entry \<open>(i, j)\<close> of \<open>- (C1 T) C2\<^sup>T\<close>, the cross term of the square loss.
\<close>

definition square_loss_cross ::
  "real list list \<Rightarrow> real list list \<Rightarrow> real list list \<Rightarrow> nat \<Rightarrow> nat \<Rightarrow> real" where
  "square_loss_cross C1 C2 T i j =
     - (\<Sum>l<length C2. (\<Sum>k<length C1. C1 ! i ! k * T ! k ! l) * C2 ! j ! l)"

text \<open>
  A matrix shifted by its least entry.
\<close>

definition min_shifted :: "real list list \<Rightarrow> real list list" where
  "min_shifted A = map (map (\<lambda>x. x - Min (set (concat A)))) A"

text \<open>
  The largest finite float64.
\<close>

definition float_max :: real where
  "float_max = (2 - 1 / 2 ^ 52) * 2 ^ 1023"

text \<open>
  Inputs on which the square-loss tensor is computed without overflow: every entry is
  within the float64 range, and the sums of the absolute values of the products formed by
  the two matrix products stay within half of it, so that the final subtraction of the
  minimum stays in range as well.
\<close>

definition square_loss_in_range ::
  "real list list \<Rightarrow> real list list \<Rightarrow> real list list \<Rightarrow> bool" where
  "square_loss_in_range C1 C2 T =
     ((\<forall>x \<in> set (concat C1) \<union> set (concat C2) \<union> set (concat T). \<bar>x\<bar> \<le> float_max)
      \<and> (\<forall>i<length C1. \<forall>l<length C2.
            (\<Sum>k<length C1. \<bar>C1 ! i ! k * T ! k ! l\<bar>) \<le> float_max / 2)
      \<and> (\<forall>i<length C1. \<forall>j<length C2.
            (\<Sum>l<length C2. (\<Sum>k<length C1. \<bar>C1 ! i ! k * T ! k ! l\<bar>) * \<bar>C2 ! j ! l\<bar>)
              \<le> float_max / 2))"

text \<open>
  The combined driver with the assignment \<open>cost_mat1 = cost_mat / cost_mat.max()\<close>
  removed, to compare it with the driver of the source.
\<close>

definition combined_run_without_normalization ::
  "sinkhorn \<Rightarrow> ndarray \<Rightarrow> ndarray \<Rightarrow> ndarray \<Rightarrow> f64 \<Rightarrow> vec \<Rightarrow> vec \<Rightarrow> string \<Rightarrow> f64
     \<Rightarrow> int \<Rightarrow> f64 \<Rightarrow> f64 list option \<Rightarrow> exn + gw_state" where
  "combined_run_without_normalization solver cost_mat C1 C2 alpha_linear p q loss_fun epsilon
       max_iter tol log0 =
     exn_bind (np_asarray C1) (\<lambda>C1.
     exn_bind (np_asarray C2) (\<lambda>C2.
     exn_bind (np_asarray cost_mat) (\<lambda>cost_mat.
     gw_while (combined_body solver cost_mat C1 C2 alpha_linear p q loss_fun epsilon)
       tol max_iter (gw_init p q log0))))"

definition combined_without_normalization ::
  "sinkhorn \<Rightarrow> ndarray \<Rightarrow> ndarray \<Rightarrow> ndarray \<Rightarrow> f64 \<Rightarrow> vec \<Rightarrow> vec \<Rightarrow> string \<Rightarrow> f64
     \<Rightarrow> int \<Rightarrow> f64 \<Rightarrow> f64 list option \<Rightarrow> exn + ndarray \<times> f64 list option" where
  "combined_without_normalization solver cost_mat C1 C2 alpha_linear p q loss_fun epsilon
       max_iter tol log0 =
     exn_bind (combined_run_without_normalization solver cost_mat C1 C2 alpha_linear p q
                 loss_fun epsilon max_iter tol log0) (\<lambda>st.
     Inr (gw_return st))"

text \<open>
  A solver for the examples: it returns the cost matrix it is given, so that the result of
  a driver shows what the last call of the solver received.
\<close>

definition echo_solver :: sinkhorn where
  "echo_solver p q M epsilon = Inr M"

text \<open>
  What the drivers need of the solver: on a cost matrix of shape ns by nt it returns a
  coupling of the same shape.
\<close>

definition solver_contract :: "sinkhorn \<Rightarrow> vec \<Rightarrow> vec \<Rightarrow> f64 \<Rightarrow> nat \<Rightarrow> nat \<Rightarrow> bool" where
  "solver_contract solver p q epsilon ns nt =
     (\<forall>M. has_shape ns nt M \<longrightarrow> (\<exists>T. solver p q M epsilon = Inr T \<and> has_shape ns nt T))"

text \<open>
  What one iteration does to \<open>err\<close> and to the log. When the counter is a multiple of 10,
  the norm of the difference of the new and the previous coupling becomes \<open>err\<close> and is
  appended to the log, if there is one; otherwise both stay as they were.
\<close>

definition log_step :: "gw_state \<Rightarrow> gw_state \<Rightarrow> bool" where
  "log_step st st' =
     (if st_cpt st mod 10 = 0
      then (\<exists>d. np_subtract (st_T st') (st_T st) = Inr d
              \<and> st_err st' = np_linalg_norm d
              \<and> st_log st' = map_option (\<lambda>es. es @ [np_linalg_norm d]) (st_log st))
      else st_err st' = st_err st \<and> st_log st' = st_log st)"

text \<open>
  Entry \<open>(i, j)\<close> of \<open>- (C1 T) log(C2 + 1e-15)\<^sup>T\<close>, the cross term of the KL loss.
\<close>

definition kl_cross ::
  "real list list \<Rightarrow> real list list \<Rightarrow> real list list \<Rightarrow> nat \<Rightarrow> nat \<Rightarrow> real" where
  "kl_cross C1 C2 T i j =
     - (\<Sum>l<length C2. (\<Sum>k<length C1. C1 ! i ! k * T ! k ! l) * ln (C2 ! j ! l + 1 / 10 ^ 15))"

text \<open>
  Entry \<open>(i, j)\<close> of the cost of the additive policy: the loss tensor plus
  \<open>alpha_linear\<close> times the normalized linear cost, rescaled by the maximum of the tensor.
\<close>

definition additive_cost ::
  "real \<Rightarrow> real list list \<Rightarrow> real list list \<Rightarrow> nat \<Rightarrow> nat \<Rightarrow> real" where
  "additive_cost alpha cost_mat tens i j =
     tens ! i ! j
     + alpha * (cost_mat ! i ! j / Max (set (concat cost_mat))) * Max (set (concat tens))"

text \<open>
  Entry \<open>(i, j)\<close> of the sum over \<open>s\<close> of \<open>lambdas[s] * T[s]\<^sup>T Cs[s] T[s]\<close>.
\<close>

definition barycenter_numerator ::
  "real list \<Rightarrow> real list list list \<Rightarrow> real list list list \<Rightarrow> nat \<Rightarrow> nat \<Rightarrow> real" where
  "barycenter_numerator lambdas T Cs i j =
     (\<Sum>s<length T. lambdas ! s *
        (\<Sum>b<length (Cs ! s). (\<Sum>a<length (Cs ! s). T ! s ! a ! i * Cs ! s ! a ! b) * T ! s ! b ! j))"

section \<open>Properties\<close>

subsection \<open>Exceptions and evaluation\<close>

lemma exn_bind_simps [simp]:
  "exn_bind (Inl e) f = Inl e" "exn_bind (Inr x) f = f x"
  by (simp_all add: exn_bind_def)

lemma exn_map_all:
  "(\<And>x. x \<in> set xs \<Longrightarrow> f x = Inr (g x)) \<Longrightarrow> exn_map f xs = Inr (map g xs)"
  by (induction xs) simp_all

lemmas array_defs =
  np_asarray_def is_array_def ncols_def nrows_def np_dot_def np_transpose_def np_neg_def
  np_min_def np_max_def sub_scalar_def mul_scalar_def scalar_mul_def div_scalar_def
  elementwise_def broadcastable_def broadcast2_def np_iadd_def np_multiply_def np_divide_def
  np_add_def np_subtract_def np_outer_def
  np_exp_def np_linalg_norm_def f_sum_def f_min_def f_max_def f_sub_def f_inf_def

lemmas driver_defs =
  gromov_wasserstein_adjusted_def adjusted_run_def adjusted_body_def
  gromov_wasserstein_adjusted_norm_def norm_run_def norm_solve_def norm_body_def
  gromov_wasserstein_adjusted_combined_def combined_run_def combined_body_def
  tensor_square_loss_mine_def tensor_square_loss_mine_combined_def
  normalized_def check_error_def gw_init_def gw_return_def read_local_def echo_solver_def
  Let_def gw_while.simps

subsection \<open>Arrays built from real matrices\<close>

lemma has_shape_matrix_of: "has_shape r c A \<Longrightarrow> A = matrix_of r c (\<lambda>i j. A ! i ! j)"
  unfolding has_shape_def matrix_of_def list_all_iff
  by (auto intro!: nth_equalityI)

lemma of_reals_matrix_of: "of_reals (matrix_of r c f) = matrix_of r c (\<lambda>i j. Fin (f i j))"
  by (simp add: of_reals_def matrix_of_def)

lemma ncols_matrix_of: "0 < r \<Longrightarrow> ncols (matrix_of r c f) = c"
proof -
  assume "0 < r"
  then have "[0..<r] = 0 # [Suc 0..<r]" by (simp add: upt_conv_Cons)
  then show ?thesis by (simp add: ncols_def matrix_of_def)
qed

lemma nrows_matrix_of: "nrows (matrix_of r c f) = r"
  by (simp add: nrows_def matrix_of_def)

lemma is_array_matrix_of: "is_array (matrix_of r c f)"
proof (cases "r = 0")
  case True then show ?thesis by (simp add: is_array_def matrix_of_def)
next
  case False
  then have "ncols (matrix_of r c f) = c" by (simp add: ncols_matrix_of)
  then show ?thesis by (simp add: is_array_def list_all_iff) (simp add: matrix_of_def)
qed

lemma np_asarray_of_reals_matrix_of [simp]:
  "np_asarray (matrix_of r c f) = Inr (matrix_of r c f)"
  by (simp add: np_asarray_def is_array_matrix_of)

lemma matrix_of_cong:
  "(\<And>i j. i < r \<Longrightarrow> j < c \<Longrightarrow> f i j = g i j) \<Longrightarrow> matrix_of r c f = matrix_of r c g"
  by (simp add: matrix_of_def)

lemma set_concat_matrix_of:
  "set (concat (matrix_of r c f)) = {f i j | i j. i < r \<and> j < c}"
  by (fastforce simp: matrix_of_def)

lemma concat_matrix_of_nonempty: "0 < r \<Longrightarrow> 0 < c \<Longrightarrow> concat (matrix_of r c f) \<noteq> []"
  by (auto simp: matrix_of_def)

lemma np_transpose_matrix_of:
  "0 < r \<Longrightarrow> np_transpose (matrix_of r c f) = matrix_of c r (\<lambda>i j. f j i)"
  by (simp add: np_transpose_def ncols_matrix_of) (simp add: matrix_of_def)

lemma f_sum_Fin: "f_sum (map Fin xs) = Fin (sum_list xs)"
  by (induction xs) (simp_all add: f_sum_def)

lemma map2_map_map: "map2 h (map f xs) (map g xs) = map (\<lambda>x. h (f x) (g x)) xs"
  by (induction xs) simp_all

lemma np_dot_matrix_of:
  assumes "0 < r" "0 < n"
  shows "np_dot (matrix_of r n (\<lambda>i k. Fin (f i k))) (matrix_of n c (\<lambda>k j. Fin (g k j)))
       = Inr (matrix_of r c (\<lambda>i j. Fin (\<Sum>k<n. f i k * g k j)))"
proof -
  have "f_sum (map2 f_mul (map (\<lambda>k. Fin (f i k)) [0..<n]) (map (\<lambda>k. Fin (g k j)) [0..<n]))
      = Fin (\<Sum>k<n. f i k * g k j)" for i j
  proof -
    have "map2 f_mul (map (\<lambda>k. Fin (f i k)) [0..<n]) (map (\<lambda>k. Fin (g k j)) [0..<n])
        = map Fin (map (\<lambda>k. f i k * g k j) [0..<n])"
      by (simp add: map2_map_map)
    then show ?thesis
      by (simp only: f_sum_Fin) (simp add: interv_sum_list_conv_sum_set_nat atLeast0LessThan)
  qed
  then show ?thesis
    using assms
    by (simp add: np_dot_def is_array_matrix_of ncols_matrix_of nrows_matrix_of
        np_transpose_matrix_of)
      (simp add: matrix_of_def)
qed

lemma np_neg_matrix_of: "np_neg (matrix_of r c (\<lambda>i j. Fin (f i j))) = matrix_of r c (\<lambda>i j. Fin (- f i j))"
  by (simp add: np_neg_def matrix_of_def)

lemma sub_scalar_matrix_of:
  "sub_scalar (matrix_of r c (\<lambda>i j. Fin (f i j))) (Fin m) = matrix_of r c (\<lambda>i j. Fin (f i j - m))"
  by (simp add: sub_scalar_def matrix_of_def f_sub_def)

lemma div_scalar_matrix_of:
  "m \<noteq> 0 \<Longrightarrow> div_scalar (matrix_of r c (\<lambda>i j. Fin (f i j))) (Fin m)
     = matrix_of r c (\<lambda>i j. Fin (f i j / m))"
  by (simp add: div_scalar_def matrix_of_def)

lemma mul_scalar_matrix_of:
  "mul_scalar (matrix_of r c (\<lambda>i j. Fin (f i j))) (Fin m) = matrix_of r c (\<lambda>i j. Fin (f i j * m))"
  by (simp add: mul_scalar_def matrix_of_def)

lemma scalar_mul_matrix_of:
  "scalar_mul (Fin a) (matrix_of r c (\<lambda>i j. Fin (f i j))) = matrix_of r c (\<lambda>i j. Fin (a * f i j))"
  by (simp add: scalar_mul_def matrix_of_def)

lemma map_by_index: "map f xs = map (\<lambda>i. f (xs ! i)) [0..<length xs]"
  by (rule nth_equalityI) simp_all

lemma np_outer_Fin:
  "np_outer (map Fin p) (map Fin p) = matrix_of (length p) (length p) (\<lambda>i j. Fin (p ! i * p ! j))"
proof -
  have "np_outer (map Fin p) (map Fin p) = map (\<lambda>a. map (\<lambda>b. Fin (a * b)) p) p"
    by (simp add: np_outer_def)
  also have "\<dots> = map (\<lambda>i. map (\<lambda>b. Fin (p ! i * b)) p) [0..<length p]"
    by (rule map_by_index)
  also have "\<dots> = map (\<lambda>i. map (\<lambda>j. Fin (p ! i * p ! j)) [0..<length p]) [0..<length p]"
    by (subst map_by_index [of _ p]) (rule refl)
  finally show ?thesis by (simp only: matrix_of_def)
qed

lemma np_exp_of_reals:
  "np_exp (of_reals (matrix_of r c f)) = of_reals (matrix_of r c (\<lambda>i j. exp (f i j)))"
  by (simp add: np_exp_def of_reals_def matrix_of_def)

lemma f_min_Fin: "f_min (Fin a) (Fin b) = Fin (min a b)"
  unfolding f_min_def min_def by simp

lemma fold_f_min_Fin: "fold f_min (map Fin xs) (Fin x) = Fin (fold min xs x)"
proof (induction xs arbitrary: x)
  case Nil show ?case by simp
next
  case (Cons a xs)
  show ?case by (simp only: list.map fold_simps f_min_Fin Cons.IH)
qed

lemma np_min_of_reals:
  assumes "concat A \<noteq> []"
  shows "np_min (of_reals A) = Inr (Fin (Min (set (concat A))))"
proof -
  obtain x xs where c: "concat A = x # xs" using assms by (cases "concat A") auto
  have "concat (of_reals A) = map Fin (concat A)"
    by (simp add: of_reals_def map_concat)
  then have "np_min (of_reals A) = Inr (Fin (fold min xs x))"
    by (simp add: np_min_def c fold_f_min_Fin)
  moreover have "Min (set (concat A)) = fold min xs x"
    unfolding c by (rule Min.set_eq_fold)
  ultimately show ?thesis by simp
qed

lemma f_max_Fin: "f_max (Fin a) (Fin b) = Fin (max a b)"
  unfolding f_max_def max_def by simp

lemma fold_f_max_Fin: "fold f_max (map Fin xs) (Fin x) = Fin (fold max xs x)"
proof (induction xs arbitrary: x)
  case Nil show ?case by simp
next
  case (Cons a xs)
  show ?case by (simp only: list.map fold_simps f_max_Fin Cons.IH)
qed

lemma np_max_of_reals:
  assumes "concat A \<noteq> []"
  shows "np_max (of_reals A) = Inr (Fin (Max (set (concat A))))"
proof -
  obtain x xs where c: "concat A = x # xs" using assms by (cases "concat A") auto
  have "concat (of_reals A) = map Fin (concat A)"
    by (simp add: of_reals_def map_concat)
  then have "np_max (of_reals A) = Inr (Fin (fold max xs x))"
    by (simp add: np_max_def c fold_f_max_Fin)
  moreover have "Max (set (concat A)) = fold max xs x"
    unfolding c by (rule Max.set_eq_fold)
  ultimately show ?thesis by simp
qed

subsection \<open>Shapes\<close>

lemma has_shape_array:
  assumes "has_shape r c A" "0 < r"
  shows "is_array A" "nrows A = r" "ncols A = c"
proof -
  from assms obtain x xs where A: "A = x # xs" by (cases A) (auto simp: has_shape_def)
  with assms show "ncols A = c" by (simp add: has_shape_def ncols_def)
  with assms show "is_array A" by (simp add: has_shape_def is_array_def)
  from assms show "nrows A = r" by (simp add: has_shape_def nrows_def)
qed

lemma has_shape_map: "has_shape r c A \<Longrightarrow> has_shape r c (map (map f) A)"
  by (simp add: has_shape_def list_all_iff)

lemma has_shape_concat: "has_shape r c A \<Longrightarrow> 0 < r \<Longrightarrow> 0 < c \<Longrightarrow> concat A \<noteq> []"
  by (cases A) (auto simp: has_shape_def)

lemma has_shape_transpose:
  "has_shape r c A \<Longrightarrow> 0 < r \<Longrightarrow> has_shape c r (np_transpose A)"
  by (simp add: np_transpose_def has_shape_array) (simp add: has_shape_def list_all_iff)

lemma has_shape_dot:
  assumes "has_shape r n A" "has_shape n c B" "0 < r" "0 < n"
  shows "\<exists>D. np_dot A B = Inr D \<and> has_shape r c D"
proof -
  have "has_shape c n (np_transpose B)" using assms by (simp add: has_shape_transpose)
  then have "has_shape r c (map (\<lambda>r. map (\<lambda>c. f_sum (map2 f_mul r c)) (np_transpose B)) A)"
    using assms(1) by (simp add: has_shape_def list_all_iff)
  then show ?thesis
    using assms by (simp add: np_dot_def has_shape_array)
qed

lemma has_shape_min: "has_shape r c A \<Longrightarrow> 0 < r \<Longrightarrow> 0 < c \<Longrightarrow> \<exists>m. np_min A = Inr m"
  using has_shape_concat [of r c A] by (cases "concat A") (simp_all add: np_min_def)

lemma has_shape_max: "has_shape r c A \<Longrightarrow> 0 < r \<Longrightarrow> 0 < c \<Longrightarrow> \<exists>m. np_max A = Inr m"
  using has_shape_concat [of r c A] by (cases "concat A") (simp_all add: np_max_def)

lemma has_shape_outer: "has_shape (length p) (length q) (np_outer p q)"
  by (simp add: has_shape_def np_outer_def list_all_iff)

lemma has_shape_asarray: "has_shape r c A \<Longrightarrow> 0 < r \<Longrightarrow> np_asarray A = Inr A"
  by (simp add: np_asarray_def has_shape_array)

lemma np_asarray_of_reals:
  "has_shape r c A \<Longrightarrow> 0 < r \<Longrightarrow> np_asarray (of_reals A) = Inr (of_reals A)"
  unfolding of_reals_def by (rule has_shape_asarray [OF has_shape_map])

lemma np_asarray_array [simp]: "is_array A \<Longrightarrow> np_asarray A = Inr A"
  by (simp add: np_asarray_def)

lemma has_shape_matrix_of_self: "has_shape r c (matrix_of r c f)"
  by (simp add: has_shape_def matrix_of_def list_all_iff)

lemma broadcast2_same: "length xs = length ys \<Longrightarrow> broadcast2 g xs ys = map2 g xs ys"
  by (simp add: broadcast2_def)

lemma broadcast2_rows:
  assumes "has_shape r c A" "has_shape r c B"
  shows "broadcast2 (broadcast2 f) A B = map2 (map2 f) A B"
proof -
  have "length A = length B" using assms by (simp add: has_shape_def)
  then have "broadcast2 (broadcast2 f) A B = map2 (broadcast2 f) A B"
    by (rule broadcast2_same)
  also have "\<dots> = map2 (map2 f) A B"
  proof (rule map_cong [OF refl])
    fix xy assume "xy \<in> set (zip A B)"
    then have "(fst xy, snd xy) \<in> set (zip A B)" by simp
    then have "fst xy \<in> set A" "snd xy \<in> set B"
      by (rule set_zip_leftD, rule set_zip_rightD)
    then have "length (fst xy) = length (snd xy)"
      using assms by (simp add: has_shape_def list_all_iff)
    then show "(case xy of (x, y) \<Rightarrow> broadcast2 f x y) = (case xy of (x, y) \<Rightarrow> map2 f x y)"
      by (cases xy) (simp add: broadcast2_same)
  qed
  finally show ?thesis .
qed

lemma has_shape_map2:
  assumes "has_shape r c A" "has_shape r c B"
  shows "has_shape r c (map2 (map2 f) A B)"
  using assms
  by (auto simp: has_shape_def list_all_iff dest!: set_zip_leftD set_zip_rightD
      elim!: in_set_zipE)

lemma elementwise_same_shape:
  assumes "has_shape r c A" "has_shape r c B" "0 < r"
  shows "elementwise f A B = Inr (map2 (map2 f) A B)"
  using assms
  by (simp add: elementwise_def has_shape_array broadcastable_def broadcast2_rows [of r c])

lemma np_iadd_same_shape:
  assumes "has_shape r c A" "has_shape r c B" "0 < r"
  shows "np_iadd A B = Inr (map2 (map2 f_add) A B)"
  using assms
  by (simp add: np_iadd_def has_shape_array broadcast2_rows [of r c])

lemma has_shape_elementwise:
  assumes "has_shape r c A" "has_shape r c B" "0 < r"
  shows "\<exists>D. elementwise f A B = Inr D \<and> has_shape r c D"
  using elementwise_same_shape [OF assms] has_shape_map2 [OF assms(1,2)] by simp

lemma has_shape_iadd:
  assumes "has_shape r c A" "has_shape r c B" "0 < r"
  shows "\<exists>D. np_iadd A B = Inr D \<and> has_shape r c D"
  using np_iadd_same_shape [OF assms] has_shape_map2 [OF assms(1,2)] by simp

lemma map2_matrix_of:
  "map2 (map2 f) (matrix_of r c a) (matrix_of r c b) = matrix_of r c (\<lambda>i j. f (a i j) (b i j))"
  unfolding matrix_of_def by (simp only: map2_map_map)

lemma elementwise_matrix_of:
  assumes "0 < r"
  shows "elementwise f (matrix_of r c a) (matrix_of r c b)
       = Inr (matrix_of r c (\<lambda>i j. f (a i j) (b i j)))"
  using elementwise_same_shape [OF has_shape_matrix_of_self has_shape_matrix_of_self assms]
  by (simp only: map2_matrix_of)

lemma np_add_matrix_of:
  "0 < r \<Longrightarrow> np_add (matrix_of r c (\<lambda>i j. Fin (a i j))) (matrix_of r c (\<lambda>i j. Fin (b i j)))
     = Inr (matrix_of r c (\<lambda>i j. Fin (a i j + b i j)))"
  by (simp add: np_add_def elementwise_matrix_of)

lemma np_iadd_matrix_of:
  assumes "0 < r"
  shows "np_iadd (matrix_of r c a) (matrix_of r c b)
       = Inr (matrix_of r c (\<lambda>i j. f_add (a i j) (b i j)))"
  using np_iadd_same_shape [OF has_shape_matrix_of_self has_shape_matrix_of_self assms]
  by (simp only: map2_matrix_of)

subsection \<open>The square-loss tensor\<close>

lemma min_shifted_matrix_of:
  "min_shifted (matrix_of r c f) =
     matrix_of r c (\<lambda>i j. f i j - Min (set (concat (matrix_of r c f))))"
  by (simp add: min_shifted_def) (simp add: matrix_of_def)

lemma set_concat_min_shifted:
  "set (concat (min_shifted A)) = (\<lambda>x. x - Min (set (concat A))) ` set (concat A)"
  by (auto simp: min_shifted_def)

lemma min_shifted_nonneg:
  assumes "x \<in> set (concat (min_shifted A))"
  shows "0 \<le> x"
proof -
  from assms obtain y where y: "y \<in> set (concat A)" "x = y - Min (set (concat A))"
    unfolding set_concat_min_shifted by blast
  then have "Min (set (concat A)) \<le> y" by (intro Min_le) simp_all
  with y show ?thesis by simp
qed

lemma min_shifted_Min:
  assumes "concat A \<noteq> []"
  shows "Min (set (concat (min_shifted A))) = 0"
proof (rule Min_eqI)
  show "finite (set (concat (min_shifted A)))" by simp
  show "\<And>y. y \<in> set (concat (min_shifted A)) \<Longrightarrow> 0 \<le> y" by (rule min_shifted_nonneg)
  have "Min (set (concat A)) \<in> set (concat A)"
    using assms by (intro Min_in) simp_all
  then show "0 \<in> set (concat (min_shifted A))"
    unfolding set_concat_min_shifted by force
qed

lemma tensor_square_loss_mine_matrix_of:
  assumes "0 < ns" "0 < nt"
  shows "tensor_square_loss_mine (of_reals (matrix_of ns ns a)) (of_reals (matrix_of nt nt b))
           (of_reals (matrix_of ns nt t))
       = Inr (of_reals (min_shifted (matrix_of ns nt
            (\<lambda>i j. - (\<Sum>l<nt. (\<Sum>k<ns. a i k * t k l) * b j l)))))"
proof -
  let ?g = "\<lambda>i j. - (\<Sum>l<nt. (\<Sum>k<ns. a i k * t k l) * b j l)"
  have d1: "np_dot (matrix_of ns ns (\<lambda>i k. Fin (a i k))) (matrix_of ns nt (\<lambda>k j. Fin (t k j)))
      = Inr (matrix_of ns nt (\<lambda>i j. Fin (\<Sum>k<ns. a i k * t k j)))"
    using assms by (simp add: np_dot_matrix_of)
  have d2: "np_dot (matrix_of ns nt (\<lambda>i j. Fin (\<Sum>k<ns. a i k * t k j)))
         (np_transpose (matrix_of nt nt (\<lambda>i j. Fin (b i j))))
      = Inr (matrix_of ns nt (\<lambda>i j. Fin (\<Sum>l<nt. (\<Sum>k<ns. a i k * t k l) * b j l)))"
    using assms by (simp add: np_transpose_matrix_of np_dot_matrix_of)
  have ng: "np_neg (matrix_of ns nt (\<lambda>i j. Fin (\<Sum>l<nt. (\<Sum>k<ns. a i k * t k l) * b j l)))
      = matrix_of ns nt (\<lambda>i j. Fin (?g i j))"
    by (simp only: np_neg_matrix_of)
  have mn: "np_min (matrix_of ns nt (\<lambda>i j. Fin (?g i j)))
      = Inr (Fin (Min (set (concat (matrix_of ns nt ?g)))))"
    using assms np_min_of_reals [OF concat_matrix_of_nonempty, of ns nt ?g]
    by (simp only: of_reals_matrix_of)
  have sh: "sub_scalar (matrix_of ns nt (\<lambda>i j. Fin (?g i j))) (Fin (Min (set (concat (matrix_of ns nt ?g)))))
      = of_reals (min_shifted (matrix_of ns nt ?g))"
    by (simp only: min_shifted_matrix_of of_reals_matrix_of sub_scalar_matrix_of)
  show ?thesis
    unfolding tensor_square_loss_mine_def
    by (simp only: of_reals_matrix_of np_asarray_of_reals_matrix_of exn_bind_simps d1 d2
        Let_def ng mn sh)
qed

lemma tensor_square_loss_mine_of_reals:
  assumes "has_shape ns ns C1" "has_shape nt nt C2" "has_shape ns nt T" "0 < ns" "0 < nt"
  shows "tensor_square_loss_mine (of_reals C1) (of_reals C2) (of_reals T)
       = Inr (of_reals (min_shifted (matrix_of ns nt (square_loss_cross C1 C2 T))))"
proof -
  let ?R = "min_shifted (matrix_of ns nt (square_loss_cross C1 C2 T))"
  have l: "length C1 = ns" "length C2 = nt"
    using assms by (simp_all add: has_shape_def)
  have g: "square_loss_cross C1 C2 T
      = (\<lambda>i j. - (\<Sum>l<nt. (\<Sum>k<ns. C1 ! i ! k * T ! k ! l) * C2 ! j ! l))"
    by (intro ext) (simp add: square_loss_cross_def l)
  have "tensor_square_loss_mine (of_reals (matrix_of ns ns (\<lambda>i j. C1 ! i ! j)))
          (of_reals (matrix_of nt nt (\<lambda>i j. C2 ! i ! j))) (of_reals (matrix_of ns nt (\<lambda>i j. T ! i ! j)))
        = Inr (of_reals ?R)"
    using assms(4,5) by (simp only: g) (simp add: tensor_square_loss_mine_matrix_of)
  then show ?thesis
    using assms(1-3) by (simp flip: has_shape_matrix_of)
qed

text \<open>
  Claim C1 as stated, for every \<open>C1\<close>, \<open>C2\<close> and \<open>T\<close>, fails on arrays with an infinite
  entry: for \<open>C1 = [[inf]]\<close>, \<open>C2 = [[1]]\<close> and \<open>T = [[1]]\<close> the product is \<open>- inf\<close>, the shift
  computes \<open>- inf - (- inf)\<close>, and the function returns \<open>[[nan]]\<close>, whose minimum is NaN and
  not 0. The same happens in float64 on finite entries whose products overflow, as
  \<open>C1 = C2 = [[2^600]]\<close>.
\<close>

theorem tensor_square_loss_mine_nonfinite_counterexample:
  "tensor_square_loss_mine [[PInf]] [[Fin 1]] [[Fin 1]] = Inr [[NaN]]
   \<and> np_min [[NaN]] = Inr NaN"
  by (simp add: tensor_square_loss_mine_def array_defs)

text \<open>
  Claim C1, amended. Let \<open>C1\<close> (ns by ns), \<open>C2\<close> (nt by nt) and \<open>T\<close> (ns by nt) be matrices
  of finite values with \<open>ns, nt \<ge> 1\<close>, within the range in which no product or sum of the
  computation overflows (\<open>square_loss_in_range\<close>). Then \<open>tensor_square_loss_mine\<close> raises
  nothing and returns the matrix whose entry \<open>(i, j)\<close> is
  \<open>- \<Sum>l. (\<Sum>k. C1[i][k] * T[k][l]) * C2[j][l]\<close> minus the least such entry; every entry of
  the result is non-negative and its minimum is 0.
\<close>

theorem tensor_square_loss_mine_min_shift:
  assumes "has_shape ns ns C1" "has_shape nt nt C2" "has_shape ns nt T" "1 \<le> ns" "1 \<le> nt"
    and "square_loss_in_range C1 C2 T"
  shows "\<exists>R. tensor_square_loss_mine (of_reals C1) (of_reals C2) (of_reals T) = Inr (of_reals R)
           \<and> R = min_shifted (matrix_of ns nt (square_loss_cross C1 C2 T))
           \<and> (\<forall>x \<in> set (concat R). 0 \<le> x)
           \<and> Min (set (concat R)) = 0"
proof -
  let ?R = "min_shifted (matrix_of ns nt (square_loss_cross C1 C2 T))"
  have pos: "0 < ns" "0 < nt" using assms(4,5) by simp_all
  have "tensor_square_loss_mine (of_reals C1) (of_reals C2) (of_reals T) = Inr (of_reals ?R)"
    using assms(1-3) pos by (rule tensor_square_loss_mine_of_reals)
  moreover have "\<forall>x \<in> set (concat ?R). 0 \<le> x"
    using min_shifted_nonneg by blast
  moreover have "Min (set (concat ?R)) = 0"
    using pos by (intro min_shifted_Min concat_matrix_of_nonempty)
  ultimately show ?thesis by blast
qed

theorem tensor_square_loss_mine_min_shift_witness:
  "has_shape 2 2 [[1, 2], [3, 4::real]] \<and> has_shape 2 2 [[0, 1], [1, 0::real]]
   \<and> has_shape 2 2 [[1/4, 1/4], [1/4, 1/4::real]] \<and> (1::nat) \<le> 2
   \<and> square_loss_in_range [[1, 2], [3, 4]] [[0, 1], [1, 0]] [[1/4, 1/4], [1/4, 1/4]]
   \<and> tensor_square_loss_mine (of_reals [[1, 2], [3, 4]]) (of_reals [[0, 1], [1, 0]])
         (of_reals [[1/4, 1/4], [1/4, 1/4]])
       = Inr (of_reals (min_shifted (matrix_of 2 2
           (square_loss_cross [[1, 2], [3, 4]] [[0, 1], [1, 0]] [[1/4, 1/4], [1/4, 1/4]]))))
   \<and> min_shifted (matrix_of 2 2
           (square_loss_cross [[1, 2], [3, 4]] [[0, 1], [1, 0]] [[1/4, 1/4], [1/4, 1/4]]))
       = [[1, 1], [0, 0]]
   \<and> Min (set (concat (min_shifted (matrix_of 2 2
           (square_loss_cross [[1, 2], [3, 4]] [[0, 1], [1, 0]] [[1/4, 1/4], [1/4, 1/4]]))))) = 0"
proof -
  have h: "has_shape 2 2 [[1, 2], [3, 4::real]]" "has_shape 2 2 [[0, 1], [1, 0::real]]"
    "has_shape 2 2 [[1/4, 1/4], [1/4, 1/4::real]]" "(1::nat) \<le> 2"
    by (simp_all add: has_shape_def)
  have r: "square_loss_in_range [[1, 2], [3, 4]] [[0, 1], [1, 0]] [[1/4, 1/4], [1/4, 1/4]]"
    by (simp add: square_loss_in_range_def float_max_def numeral_2_eq_2 All_less_Suc
        lessThan_Suc)
  have v: "min_shifted (matrix_of 2 2
           (square_loss_cross [[1, 2], [3, 4]] [[0, 1], [1, 0]] [[1/4, 1/4], [1/4, 1/4]]))
       = [[1, 1], [0, 0]]"
    by (simp add: min_shifted_def matrix_of_def square_loss_cross_def numeral_2_eq_2
        lessThan_Suc upt_conv_Cons)
  from tensor_square_loss_mine_min_shift [OF h(1) h(2) h(3) h(4) h(4) r] h r v
  show ?thesis by metis
qed

lemma has_shape_tensor_square_loss_mine:
  assumes "has_shape ns ns C1" "has_shape nt nt C2" "has_shape ns nt T" "0 < ns" "0 < nt"
  shows "\<exists>t. tensor_square_loss_mine C1 C2 T = Inr t \<and> has_shape ns nt t"
proof -
  obtain D where D: "np_dot C1 T = Inr D" "has_shape ns nt D"
    using has_shape_dot [OF assms(1,3,4,4)] by blast
  have "has_shape nt nt (np_transpose C2)" using assms by (simp add: has_shape_transpose)
  then obtain E where E: "np_dot D (np_transpose C2) = Inr E" "has_shape ns nt E"
    using has_shape_dot [OF D(2) _ assms(4,5)] by blast
  have N: "has_shape ns nt (np_neg E)" using E(2) by (simp add: np_neg_def has_shape_map)
  then obtain m where m: "np_min (np_neg E) = Inr m" using has_shape_min assms(4,5) by blast
  have "has_shape ns nt (sub_scalar (np_neg E) m)" using N by (simp add: sub_scalar_def has_shape_map)
  then show ?thesis
    using assms D E m by (simp add: tensor_square_loss_mine_def has_shape_array)
qed

lemma has_shape_tensor_square_loss_mine_combined:
  assumes "has_shape ns ns C1" "has_shape nt nt C2" "has_shape ns nt T" "has_shape ns nt cost_mat"
    "0 < ns" "0 < nt"
  shows "\<exists>t. tensor_square_loss_mine_combined C1 C2 T cost_mat alpha = Inr t \<and> has_shape ns nt t"
proof -
  obtain D where D: "np_dot C1 T = Inr D" "has_shape ns nt D"
    using has_shape_dot [OF assms(1,3,5,5)] by blast
  have "has_shape nt nt (np_transpose C2)" using assms by (simp add: has_shape_transpose)
  then obtain E where E: "np_dot D (np_transpose C2) = Inr E" "has_shape ns nt E"
    using has_shape_dot [OF D(2) _ assms(5,6)] by blast
  obtain P where P: "np_multiply cost_mat T = Inr P" "has_shape ns nt P"
    unfolding np_multiply_def using has_shape_elementwise [OF assms(4,3,5)] by blast
  obtain mx where mx: "np_max E = Inr mx" using has_shape_max E(2) assms(5,6) by blast
  have L: "has_shape ns nt (scalar_mul alpha (mul_scalar P mx))"
    using P(2) by (simp add: scalar_mul_def mul_scalar_def has_shape_map)
  have N: "has_shape ns nt (np_neg E)" using E(2) by (simp add: np_neg_def has_shape_map)
  obtain S where S: "np_subtract (np_neg E) (scalar_mul alpha (mul_scalar P mx)) = Inr S"
      "has_shape ns nt S"
    unfolding np_subtract_def using has_shape_elementwise [OF N L assms(5)] by blast
  obtain m where m: "np_min S = Inr m" using has_shape_min S(2) assms(5,6) by blast
  have "has_shape ns nt (sub_scalar S m)" using S(2) by (simp add: sub_scalar_def has_shape_map)
  then show ?thesis
    using assms D E P mx S m
    by (simp add: tensor_square_loss_mine_combined_def has_shape_array Let_def)
qed

subsection \<open>The KL-loss tensor\<close>

lemma kl_h2_matrix_of:
  assumes "\<And>i j. i < r \<Longrightarrow> j < c \<Longrightarrow> 0 \<le> b i j"
  shows "kl_h2 (matrix_of r c (\<lambda>i j. Fin (b i j)))
       = matrix_of r c (\<lambda>i j. Fin (ln (b i j + 1 / 10 ^ 15)))"
proof -
  have "kl_h2 (matrix_of r c (\<lambda>i j. Fin (b i j)))
      = matrix_of r c (\<lambda>i j. f_log (f_add (Fin (b i j)) (Fin (1 / 10 ^ 15))))"
    by (simp add: kl_h2_def matrix_of_def)
  also have "\<dots> = matrix_of r c (\<lambda>i j. Fin (ln (b i j + 1 / 10 ^ 15)))"
  proof (rule matrix_of_cong)
    fix i j assume "i < r" "j < c"
    then have "0 \<le> b i j" by (rule assms)
    then have "0 < b i j + 1 / 10 ^ 15" by (simp add: add_nonneg_pos)
    then show "f_log (f_add (Fin (b i j)) (Fin (1 / 10 ^ 15))) = Fin (ln (b i j + 1 / 10 ^ 15))"
      by simp
  qed
  finally show ?thesis .
qed

lemma is_array_kl_h2: "is_array A \<Longrightarrow> is_array (kl_h2 A)"
  by (cases A) (simp_all add: is_array_def kl_h2_def ncols_def list_all_iff)

lemma tensor_kl_as_square:
  "is_array C2 \<Longrightarrow> tensor_kl_loss_mine C1 C2 T = tensor_square_loss_mine C1 (kl_h2 C2) T"
  unfolding tensor_kl_loss_mine_def tensor_square_loss_mine_def
  by (simp add: is_array_kl_h2)

lemma has_shape_kl_h2: "has_shape r c A \<Longrightarrow> has_shape r c (kl_h2 A)"
  by (simp add: kl_h2_def has_shape_map)

text \<open>
  Claim C7. On arrays of the shapes ns by ns, nt by nt and ns by nt (\<open>ns, nt \<ge> 1\<close>), whatever
  their entries, \<open>tensor_kl_loss_mine\<close> raises nothing. On real matrices where no entry of
  \<open>C2\<close> is negative (zeros allowed) the logarithm is taken of \<open>C2[j][l] + 1e-15 > 0\<close>, every
  entry of the result is finite, and the result is the matrix with entries
  \<open>- \<Sum>l. (\<Sum>k. C1[i][k] * T[k][l]) * ln (C2[j][l] + 1e-15)\<close> minus the least of them.
\<close>

theorem tensor_kl_loss_mine_floor:
  assumes "has_shape ns ns C1" "has_shape nt nt C2" "has_shape ns nt T" "1 \<le> ns" "1 \<le> nt"
  shows "(\<forall>A1 A2 AT. has_shape ns ns A1 \<and> has_shape nt nt A2 \<and> has_shape ns nt AT \<longrightarrow>
            (\<exists>t. tensor_kl_loss_mine A1 A2 AT = Inr t \<and> has_shape ns nt t))
       \<and> ((\<forall>x \<in> set (concat C2). 0 \<le> x) \<longrightarrow>
            tensor_kl_loss_mine (of_reals C1) (of_reals C2) (of_reals T)
            = Inr (of_reals (min_shifted (matrix_of ns nt (kl_cross C1 C2 T)))))"
proof (intro conjI allI impI)
  fix A1 A2 AT :: ndarray
  assume a: "has_shape ns ns A1 \<and> has_shape nt nt A2 \<and> has_shape ns nt AT"
  then have "has_shape nt nt A2" "0 < nt" using assms(5) by simp_all
  then have "is_array A2" by (rule has_shape_array)
  moreover have "\<exists>t. tensor_square_loss_mine A1 (kl_h2 A2) AT = Inr t \<and> has_shape ns nt t"
    using a assms(4,5) by (intro has_shape_tensor_square_loss_mine has_shape_kl_h2) simp_all
  ultimately show "\<exists>t. tensor_kl_loss_mine A1 A2 AT = Inr t \<and> has_shape ns nt t"
    by (simp add: tensor_kl_as_square)
next
  assume nn: "\<forall>x \<in> set (concat C2). 0 \<le> x"
  have l: "length C1 = ns" "length C2 = nt"
    using assms by (simp_all add: has_shape_def)
  have C1: "C1 = matrix_of ns ns (\<lambda>i j. C1 ! i ! j)"
    and C2: "C2 = matrix_of nt nt (\<lambda>i j. C2 ! i ! j)"
    and T: "T = matrix_of ns nt (\<lambda>i j. T ! i ! j)"
    by (rule has_shape_matrix_of [OF assms(1)], rule has_shape_matrix_of [OF assms(2)],
        rule has_shape_matrix_of [OF assms(3)])
  have pos: "0 \<le> C2 ! i ! j" if "i < nt" "j < nt" for i j
  proof -
    have r: "C2 ! i \<in> set C2" using that(1) l(2) by simp
    then have "length (C2 ! i) = nt" using assms(2) by (simp add: has_shape_def list_all_iff)
    then have "C2 ! i ! j \<in> set (C2 ! i)" using that(2) by simp
    with r have "C2 ! i ! j \<in> set (concat C2)" by auto
    with nn show ?thesis by blast
  qed
  have g: "kl_cross C1 C2 T
      = (\<lambda>i j. - (\<Sum>l<nt. (\<Sum>k<ns. C1 ! i ! k * T ! k ! l) * ln (C2 ! j ! l + 1 / 10 ^ 15)))"
    by (intro ext) (simp add: kl_cross_def l)
  have arr: "is_array (of_reals (matrix_of nt nt (\<lambda>i j. C2 ! i ! j)))"
    by (simp add: of_reals_matrix_of is_array_matrix_of)
  have h2: "kl_h2 (of_reals (matrix_of nt nt (\<lambda>i j. C2 ! i ! j)))
      = of_reals (matrix_of nt nt (\<lambda>i j. ln (C2 ! i ! j + 1 / 10 ^ 15)))"
    using pos by (simp add: of_reals_matrix_of kl_h2_matrix_of)
  have "tensor_kl_loss_mine (of_reals (matrix_of ns ns (\<lambda>i j. C1 ! i ! j)))
          (of_reals (matrix_of nt nt (\<lambda>i j. C2 ! i ! j))) (of_reals (matrix_of ns nt (\<lambda>i j. T ! i ! j)))
        = Inr (of_reals (min_shifted (matrix_of ns nt (kl_cross C1 C2 T))))"
    using assms(4,5)
    by (simp only: tensor_kl_as_square [OF arr] h2 g) (simp add: tensor_square_loss_mine_matrix_of)
  then show "tensor_kl_loss_mine (of_reals C1) (of_reals C2) (of_reals T)
      = Inr (of_reals (min_shifted (matrix_of ns nt (kl_cross C1 C2 T))))"
    using C1 C2 T by simp
qed

theorem tensor_kl_loss_mine_floor_witness:
  "has_shape 2 2 [[1, 2], [3, 4::real]] \<and> has_shape 2 2 [[0, 1], [1, 0::real]]
   \<and> has_shape 2 2 [[1/4, 1/4], [1/4, 1/4::real]] \<and> (1::nat) \<le> 2
   \<and> has_shape 2 2 [[Fin 1, NaN], [Fin 0, PInf]] \<and> has_shape 2 2 [[Fin 0, Fin (- 1)], [NInf, Fin 0]]
   \<and> (\<exists>t. tensor_kl_loss_mine [[Fin 1, NaN], [Fin 0, PInf]] [[Fin 0, Fin (- 1)], [NInf, Fin 0]]
            [[Fin 1, NaN], [Fin 0, PInf]] = Inr t \<and> has_shape 2 2 t)
   \<and> list_all (\<lambda>x. 0 \<le> x) (concat [[0, 1], [1, 0::real]])
   \<and> tensor_kl_loss_mine (of_reals [[1, 2], [3, 4]]) (of_reals [[0, 1], [1, 0]])
         (of_reals [[1/4, 1/4], [1/4, 1/4]])
       = Inr (of_reals (min_shifted (matrix_of 2 2
           (kl_cross [[1, 2], [3, 4]] [[0, 1], [1, 0]] [[1/4, 1/4], [1/4, 1/4]]))))"
proof -
  have h: "has_shape 2 2 [[1, 2], [3, 4::real]]" "has_shape 2 2 [[0, 1], [1, 0::real]]"
    "has_shape 2 2 [[1/4, 1/4], [1/4, 1/4::real]]" "(1::nat) \<le> 2"
    by (simp_all add: has_shape_def)
  have a: "has_shape 2 2 [[Fin 1, NaN], [Fin 0, PInf]]"
    "has_shape 2 2 [[Fin 0, Fin (- 1)], [NInf, Fin 0]]"
    by (simp_all add: has_shape_def)
  have n: "\<forall>x \<in> set (concat [[0, 1], [1, 0::real]]). 0 \<le> x" by simp
  have n': "list_all (\<lambda>x. 0 \<le> x) (concat [[0, 1], [1, 0::real]])" by simp
  from tensor_kl_loss_mine_floor [OF h(1) h(2) h(3) h(4) h(4)] h a n n'
  show ?thesis by blast
qed

subsection \<open>The marginal updates\<close>

lemma update_term_of_reals:
  assumes "s < length lambdas" "s < length T" "s < length Cs"
    and "has_shape n N (T ! s)" "has_shape n n (Cs ! s)" "0 < n" "0 < N"
  shows "update_term (map Fin lambdas) (map of_reals T) (map of_reals Cs) s
       = Inr (matrix_of N N (\<lambda>i j. Fin (lambdas ! s *
            (\<Sum>b<n. (\<Sum>a<n. T ! s ! a ! i * Cs ! s ! a ! b) * T ! s ! b ! j))))"
proof -
  have T: "of_reals (T ! s) = matrix_of n N (\<lambda>a i. Fin (T ! s ! a ! i))"
    using has_shape_matrix_of [OF assms(4)] of_reals_matrix_of [of n N "\<lambda>a i. T ! s ! a ! i"]
    by simp
  have C: "of_reals (Cs ! s) = matrix_of n n (\<lambda>a b. Fin (Cs ! s ! a ! b))"
    using has_shape_matrix_of [OF assms(5)] of_reals_matrix_of [of n n "\<lambda>a b. Cs ! s ! a ! b"]
    by simp
  have tr: "np_transpose (of_reals (T ! s)) = matrix_of N n (\<lambda>i a. Fin (T ! s ! a ! i))"
    unfolding T using assms(6) by (rule np_transpose_matrix_of)
  have d1: "np_dot (np_transpose (of_reals (T ! s))) (of_reals (Cs ! s))
      = Inr (matrix_of N n (\<lambda>i b. Fin (\<Sum>a<n. T ! s ! a ! i * Cs ! s ! a ! b)))"
    unfolding tr C using assms(7,6) by (rule np_dot_matrix_of)
  have d2: "np_dot (matrix_of N n (\<lambda>i b. Fin (\<Sum>a<n. T ! s ! a ! i * Cs ! s ! a ! b)))
        (of_reals (T ! s))
      = Inr (matrix_of N N (\<lambda>i j. Fin (\<Sum>b<n. (\<Sum>a<n. T ! s ! a ! i * Cs ! s ! a ! b)
                                              * T ! s ! b ! j)))"
    unfolding T using assms(7,6) by (rule np_dot_matrix_of)
  show ?thesis
    using assms(1-3) by (simp add: update_term_def d1 d2 scalar_mul_matrix_of)
qed

lemma py_sum_array:
  assumes "0 < N"
  shows "py_sum (Array (matrix_of N N (\<lambda>i j. Fin (acc i j))))
           (map (\<lambda>s. matrix_of N N (\<lambda>i j. Fin (t s i j))) ss)
       = Inr (Array (matrix_of N N (\<lambda>i j. Fin (acc i j + (\<Sum>s\<leftarrow>ss. t s i j)))))"
proof (induction ss arbitrary: acc)
  case Nil
  show ?case by simp
next
  case (Cons s ss)
  have "np_add (matrix_of N N (\<lambda>i j. Fin (acc i j))) (matrix_of N N (\<lambda>i j. Fin (t s i j)))
      = Inr (matrix_of N N (\<lambda>i j. Fin (acc i j + t s i j)))"
    using assms by (rule np_add_matrix_of)
  then show ?case
    by (simp add: Cons.IH [of "\<lambda>i j. acc i j + t s i j"] add.assoc)
qed

lemma py_sum_terms:
  assumes "0 < N"
  shows "py_sum (Scalar (Fin 0)) (map (\<lambda>s. matrix_of N N (\<lambda>i j. Fin (t s i j))) ss)
       = Inr (if ss = [] then Scalar (Fin 0)
              else Array (matrix_of N N (\<lambda>i j. Fin (\<Sum>s\<leftarrow>ss. t s i j))))"
proof (cases ss)
  case Nil
  then show ?thesis by simp
next
  case (Cons s ss')
  have "map (map (\<lambda>x. f_add (Fin 0) x)) (matrix_of N N (\<lambda>i j. Fin (t s i j)))
      = matrix_of N N (\<lambda>i j. Fin (t s i j))"
    by (simp add: matrix_of_def)
  then show ?thesis
    unfolding Cons using py_sum_array [OF assms, of "t s" t ss'] by simp
qed

lemma update_square_loss_mine_of_reals:
  assumes "length lambdas = length T" "length Cs = length T"
    and "\<And>s. s < length T \<Longrightarrow>
           has_shape (length (Cs ! s)) N (T ! s)
           \<and> has_shape (length (Cs ! s)) (length (Cs ! s)) (Cs ! s) \<and> 0 < length (Cs ! s)"
    and "0 < N" "length p = N" "\<And>x. x \<in> set p \<Longrightarrow> x \<noteq> 0"
  shows "update_square_loss_mine (map Fin p) (map Fin lambdas) (map of_reals T) (map of_reals Cs)
       = Inr (of_reals (matrix_of N N
           (\<lambda>i j. barycenter_numerator lambdas T Cs i j / (p ! i * p ! j))))"
proof -
  let ?t = "\<lambda>s i j. lambdas ! s * (\<Sum>b<length (Cs ! s).
      (\<Sum>a<length (Cs ! s). T ! s ! a ! i * Cs ! s ! a ! b) * T ! s ! b ! j)"
  have terms: "exn_map (update_term (map Fin lambdas) (map of_reals T) (map of_reals Cs))
        [0..<length (map of_reals T)]
      = Inr (map (\<lambda>s. matrix_of N N (\<lambda>i j. Fin (?t s i j))) [0..<length T])"
  proof -
    have "update_term (map Fin lambdas) (map of_reals T) (map of_reals Cs) s
        = Inr (matrix_of N N (\<lambda>i j. Fin (?t s i j)))" if "s \<in> set [0..<length T]" for s
    proof -
      from that have s: "s < length T" by simp
      from assms(3) [OF s] assms(1,2,4) s show ?thesis
        by (intro update_term_of_reals) simp_all
    qed
    then have "exn_map (update_term (map Fin lambdas) (map of_reals T) (map of_reals Cs))
        [0..<length T]
      = Inr (map (\<lambda>s. matrix_of N N (\<lambda>i j. Fin (?t s i j))) [0..<length T])"
      by (rule exn_map_all)
    then show ?thesis by simp
  qed
  have num: "(\<Sum>s\<leftarrow>[0..<length T]. ?t s i j) = barycenter_numerator lambdas T Cs i j" for i j
    by (simp add: barycenter_numerator_def interv_sum_list_conv_sum_set_nat atLeast0LessThan)
  have sum: "py_sum (Scalar (Fin 0)) (map (\<lambda>s. matrix_of N N (\<lambda>i j. Fin (?t s i j))) [0..<length T])
      = Inr (if T = [] then Scalar (Fin 0)
             else Array (matrix_of N N (\<lambda>i j. Fin (barycenter_numerator lambdas T Cs i j))))"
    using py_sum_terms [OF assms(4), of ?t "[0..<length T]"] by (simp add: num)
  have ppt: "np_outer (map Fin p) (map Fin p) = matrix_of N N (\<lambda>i j. Fin (p ! i * p ! j))"
    using np_outer_Fin [of p] assms(5) by simp
  have nz: "p ! i * p ! j \<noteq> 0" if "i < N" "j < N" for i j
    using that assms(5,6) by simp
  have quot: "np_divide_value
        (if T = [] then Scalar (Fin 0)
         else Array (matrix_of N N (\<lambda>i j. Fin (barycenter_numerator lambdas T Cs i j))))
        (matrix_of N N (\<lambda>i j. Fin (p ! i * p ! j)))
      = Inr (matrix_of N N (\<lambda>i j. Fin (barycenter_numerator lambdas T Cs i j / (p ! i * p ! j))))"
  proof (cases "T = []")
    case True
    have "map (map (\<lambda>x. f_div (Fin 0) x)) (matrix_of N N (\<lambda>i j. Fin (p ! i * p ! j)))
        = matrix_of N N (\<lambda>i j. f_div (Fin 0) (Fin (p ! i * p ! j)))"
      by (simp add: matrix_of_def)
    also have "\<dots> = matrix_of N N (\<lambda>i j. Fin (barycenter_numerator lambdas T Cs i j
        / (p ! i * p ! j)))"
    proof (rule matrix_of_cong)
      fix i j assume "i < N" "j < N"
      then have "p ! i * p ! j \<noteq> 0" by (rule nz)
      then show "f_div (Fin 0) (Fin (p ! i * p ! j))
          = Fin (barycenter_numerator lambdas T Cs i j / (p ! i * p ! j))"
        using True by (simp add: barycenter_numerator_def)
    qed
    finally show ?thesis using True by (simp add: np_divide_value_def)
  next
    case False
    have "np_divide (matrix_of N N (\<lambda>i j. Fin (barycenter_numerator lambdas T Cs i j)))
          (matrix_of N N (\<lambda>i j. Fin (p ! i * p ! j)))
        = Inr (matrix_of N N (\<lambda>i j. f_div (Fin (barycenter_numerator lambdas T Cs i j))
            (Fin (p ! i * p ! j))))"
      unfolding np_divide_def using assms(4) by (rule elementwise_matrix_of)
    also have "matrix_of N N (\<lambda>i j. f_div (Fin (barycenter_numerator lambdas T Cs i j))
            (Fin (p ! i * p ! j)))
        = matrix_of N N (\<lambda>i j. Fin (barycenter_numerator lambdas T Cs i j / (p ! i * p ! j)))"
    proof (rule matrix_of_cong)
      fix i j assume "i < N" "j < N"
      then have "p ! i * p ! j \<noteq> 0" by (rule nz)
      then show "f_div (Fin (barycenter_numerator lambdas T Cs i j)) (Fin (p ! i * p ! j))
          = Fin (barycenter_numerator lambdas T Cs i j / (p ! i * p ! j))"
        by simp
    qed
    finally show ?thesis using False by (simp add: np_divide_value_def)
  qed
  show ?thesis
    unfolding update_square_loss_mine_def Let_def
    by (simp only: terms sum ppt quot exn_bind_simps of_reals_matrix_of)
qed

lemma update_kl_as_exp:
  "update_kl_loss_mine p lambdas T Cs =
     exn_bind (update_square_loss_mine p lambdas T Cs) (\<lambda>C. Inr (np_exp C))"
  unfolding update_kl_loss_mine_def update_square_loss_mine_def Let_def
  by (simp add: exn_bind_def split: sum.splits)

text \<open>
  Claim C8. For every \<open>p\<close>, \<open>lambdas\<close>, list of couplings \<open>T\<close> and list of cost matrices
  \<open>Cs\<close>, \<open>update_kl_loss_mine\<close> raises exactly when \<open>update_square_loss_mine\<close> does, with
  the same exception, and otherwise returns the entrywise exponential of its result. For
  real arguments of the specified shapes and a marginal \<open>p\<close> without zero entries, the
  square-loss update is the sum over \<open>s\<close> of \<open>lambdas[s] * T[s]\<^sup>T Cs[s] T[s]\<close>, divided entry
  by entry by \<open>p[i] * p[j]\<close>, and the KL update is the exponential of that quotient.
\<close>

theorem update_kl_is_exp_of_update_square:
  "update_kl_loss_mine p lambdas T Cs =
     exn_bind (update_square_loss_mine p lambdas T Cs) (\<lambda>C. Inr (np_exp C))
   \<and> (length rl = length rT \<and> length rCs = length rT
        \<and> (\<forall>s<length rT. has_shape (length (rCs ! s)) N (rT ! s)
              \<and> has_shape (length (rCs ! s)) (length (rCs ! s)) (rCs ! s)
              \<and> 0 < length (rCs ! s))
        \<and> 0 < N \<and> length rp = N \<and> (\<forall>x \<in> set rp. x \<noteq> 0) \<longrightarrow>
          update_square_loss_mine (map Fin rp) (map Fin rl) (map of_reals rT) (map of_reals rCs)
          = Inr (of_reals (matrix_of N N
              (\<lambda>i j. barycenter_numerator rl rT rCs i j / (rp ! i * rp ! j))))
        \<and> update_kl_loss_mine (map Fin rp) (map Fin rl) (map of_reals rT) (map of_reals rCs)
          = Inr (of_reals (matrix_of N N
              (\<lambda>i j. exp (barycenter_numerator rl rT rCs i j / (rp ! i * rp ! j))))))"
proof (intro conjI impI)
  show "update_kl_loss_mine p lambdas T Cs =
     exn_bind (update_square_loss_mine p lambdas T Cs) (\<lambda>C. Inr (np_exp C))"
    by (rule update_kl_as_exp)
next
  assume a: "length rl = length rT \<and> length rCs = length rT
        \<and> (\<forall>s<length rT. has_shape (length (rCs ! s)) N (rT ! s)
              \<and> has_shape (length (rCs ! s)) (length (rCs ! s)) (rCs ! s)
              \<and> 0 < length (rCs ! s))
        \<and> 0 < N \<and> length rp = N \<and> (\<forall>x \<in> set rp. x \<noteq> 0)"
  then show sq: "update_square_loss_mine (map Fin rp) (map Fin rl) (map of_reals rT)
      (map of_reals rCs)
    = Inr (of_reals (matrix_of N N (\<lambda>i j. barycenter_numerator rl rT rCs i j / (rp ! i * rp ! j))))"
    by (intro update_square_loss_mine_of_reals) simp_all
  show "update_kl_loss_mine (map Fin rp) (map Fin rl) (map of_reals rT) (map of_reals rCs)
    = Inr (of_reals (matrix_of N N
        (\<lambda>i j. exp (barycenter_numerator rl rT rCs i j / (rp ! i * rp ! j)))))"
    by (simp only: update_kl_as_exp sq exn_bind_simps np_exp_of_reals)
qed

theorem update_kl_is_exp_of_update_square_witness:
  "has_shape 2 2 [[1, 0], [0, 1::real]] \<and> has_shape 2 2 [[0, 1], [1, 0::real]]
   \<and> update_square_loss_mine (map Fin [1/2, 1/2]) (map Fin [1]) (map of_reals [[[1, 0], [0, 1]]])
         (map of_reals [[[0, 1], [1, 0]]])
       = Inr (of_reals (matrix_of 2 2
           (\<lambda>i j. barycenter_numerator [1] [[[1, 0], [0, 1]]] [[[0, 1], [1, 0]]] i j
                    / ([1/2, 1/2] ! i * [1/2, 1/2] ! j))))
   \<and> update_kl_loss_mine (map Fin [1/2, 1/2]) (map Fin [1]) (map of_reals [[[1, 0], [0, 1]]])
         (map of_reals [[[0, 1], [1, 0]]])
       = Inr (of_reals (matrix_of 2 2
           (\<lambda>i j. exp (barycenter_numerator [1] [[[1, 0], [0, 1]]] [[[0, 1], [1, 0]]] i j
                         / ([1/2, 1/2] ! i * [1/2, 1/2] ! j)))))"
proof -
  have h: "has_shape 2 2 [[1, 0], [0, 1::real]]" "has_shape 2 2 [[0, 1], [1, 0::real]]"
    by (simp_all add: has_shape_def)
  have a: "length [1::real] = length [[[1, 0], [0, 1::real]]]
        \<and> length [[[0, 1], [1, 0::real]]] = length [[[1, 0], [0, 1::real]]]
        \<and> (\<forall>s<length [[[1, 0], [0, 1::real]]].
              has_shape (length ([[[0, 1], [1, 0::real]]] ! s)) 2 ([[[1, 0], [0, 1::real]]] ! s)
              \<and> has_shape (length ([[[0, 1], [1, 0::real]]] ! s))
                    (length ([[[0, 1], [1, 0::real]]] ! s)) ([[[0, 1], [1, 0::real]]] ! s)
              \<and> 0 < length ([[[0, 1], [1, 0::real]]] ! s))
        \<and> (0::nat) < 2 \<and> length [1/2, 1/2::real] = 2 \<and> (\<forall>x \<in> set [1/2, 1/2::real]. x \<noteq> 0)"
    by (simp add: has_shape_def)
  from update_kl_is_exp_of_update_square [where rl = "[1]" and rT = "[[[1, 0], [0, 1]]]"
      and rCs = "[[[0, 1], [1, 0]]]" and N = 2 and rp = "[1/2, 1/2]"] a h
  show ?thesis by blast
qed

subsection \<open>The normalization of the linear cost\<close>

lemma np_max_empty: "concat A = [] \<Longrightarrow> np_max A = Inl ValueError"
  by (simp add: np_max_def del: concat_eq_Nil_conv)

lemma np_max_nonempty: "concat A \<noteq> [] \<Longrightarrow> \<exists>m. np_max A = Inr m"
  by (cases "concat A") (simp_all add: np_max_def)

lemma normalized_empty: "concat A = [] \<Longrightarrow> normalized A = Inl ValueError"
  by (simp add: normalized_def np_max_empty)

lemma normalized_nonempty:
  "concat A \<noteq> [] \<Longrightarrow> \<exists>m. np_max A = Inr m \<and> normalized A = Inr (div_scalar A m)"
  using np_max_nonempty [of A] by (auto simp: normalized_def)

lemma has_shape_normalized:
  assumes "has_shape r c A" "0 < r" "0 < c"
  shows "\<exists>n. normalized A = Inr n \<and> has_shape r c n"
proof -
  obtain m where "np_max A = Inr m" using has_shape_max assms by blast
  moreover have "has_shape r c (div_scalar A m)"
    using assms(1) by (simp add: div_scalar_def has_shape_map)
  ultimately show ?thesis by (simp add: normalized_def)
qed

lemma normalized_of_reals:
  assumes "has_shape ns nt cost" "0 < ns" "0 < nt" "Max (set (concat cost)) \<noteq> 0"
  shows "normalized (of_reals cost)
       = Inr (of_reals (matrix_of ns nt (\<lambda>i j. cost ! i ! j / Max (set (concat cost)))))"
proof -
  have ne: "concat cost \<noteq> []" using assms(1-3) by (rule has_shape_concat)
  have c: "of_reals cost = matrix_of ns nt (\<lambda>i j. Fin (cost ! i ! j))"
    using has_shape_matrix_of [OF assms(1)] of_reals_matrix_of [of ns nt "\<lambda>i j. cost ! i ! j"]
    by simp
  have "div_scalar (of_reals cost) (Fin (Max (set (concat cost))))
      = of_reals (matrix_of ns nt (\<lambda>i j. cost ! i ! j / Max (set (concat cost))))"
    unfolding c using div_scalar_matrix_of [OF assms(4), of ns nt "\<lambda>i j. cost ! i ! j"]
    by (simp only: of_reals_matrix_of)
  then show ?thesis by (simp add: normalized_def np_max_of_reals [OF ne])
qed

text \<open>
  Claim C6. The code does not do what the claim describes for a cost matrix whose maximum
  is zero. On \<open>cost_mat = [[0.]]\<close> the maximum is \<open>0.\<close> and the quotient
  \<open>cost_mat / cost_mat.max()\<close> is \<open>[[nan]]\<close>: a float64 division by zero raises nothing, so
  the \<open>except\<close> branch of \<open>gromov_wasserstein_adjusted_norm\<close> is not taken. The guarded
  driver hands the NaN matrix to the solver, for \<open>alpha_linear = 1\<close> as in the loop, where a
  fall-back to the raw matrix would have given the solver \<open>[[0.]]\<close>; and the two unguarded
  drivers raise nothing either and return a coupling.
\<close>

theorem zero_maximum_raises_nothing:
  "np_max [[Fin 0]] = Inr (Fin 0)
   \<and> normalized [[Fin 0]] = Inr [[NaN]]
   \<and> gromov_wasserstein_adjusted_norm echo_solver [[Fin 0]] [[Fin 1]] [[Fin 1]] (Fin 1)
         [Fin 1] [Fin 1] ''square_loss'' (Fin (1/10)) 1000 (Fin (1/10^9)) None
       = Inr ([[NaN]], None)
   \<and> norm_solve echo_solver [[Fin 0]] [[Fin 1]] [[Fin 1]] (Fin 1)
         [Fin 1] [Fin 1] ''square_loss'' (Fin (1/10)) 1000 (Fin (1/10^9)) None
       = Inr \<lparr>st_T = [[Fin 0]], st_tens = None, st_cpt = 0, st_err = Fin 1, st_log = None\<rparr>
   \<and> gromov_wasserstein_adjusted_norm echo_solver [[Fin 0]] [[Fin 1]] [[Fin 1]] (Fin (1/2))
         [Fin 1] [Fin 1] ''square_loss'' (Fin (1/10)) 1000 (Fin (1/10^9)) None
       = Inr ([[NaN]], None)
   \<and> gromov_wasserstein_adjusted echo_solver [[Fin 0]] [[Fin 1]] [[Fin 1]] (Fin (1/2))
         [Fin 1] [Fin 1] ''square_loss'' (Fin (1/10)) 1000 (Fin (1/10^9)) None
       = Inr ([[NaN]], None)
   \<and> gromov_wasserstein_adjusted_combined echo_solver [[Fin 0]] [[Fin 1]] [[Fin 1]] (Fin (1/2))
         [Fin 1] [Fin 1] ''square_loss'' (Fin (1/10)) 1000 (Fin (1/10^9)) None
       = Inr ([[Fin 0]], None)"
  by (simp add: driver_defs array_defs)

subsection \<open>The shortcut of the normalized blend\<close>

text \<open>
  Claim C2. Called with \<open>alpha_linear = 1\<close>, \<open>gromov_wasserstein_adjusted_norm\<close> returns the
  output of the solver on \<open>(p, q, cost_mat_norm, epsilon)\<close>, where \<open>cost_mat_norm\<close> is
  \<open>cost_mat / cost_mat.max()\<close> (or \<open>cost_mat\<close> itself when that expression raises), together
  with the log as it was passed. The result does not depend on \<open>loss_fun\<close>, \<open>max_iter\<close> or
  \<open>tol\<close>: no loss tensor is built and the loop is not entered.
\<close>

theorem norm_alpha_one_shortcut:
  assumes "is_array C1" "is_array C2" "is_array cost_mat"
  shows "gromov_wasserstein_adjusted_norm solver cost_mat C1 C2 (Fin 1) p q loss_fun epsilon
           max_iter tol log0
       = exn_bind (solver p q (case normalized cost_mat of Inl e \<Rightarrow> cost_mat | Inr n \<Rightarrow> n) epsilon)
           (\<lambda>T. Inr (T, log0))"
  using assms
  unfolding gromov_wasserstein_adjusted_norm_def norm_run_def norm_solve_def Let_def
  by (simp add: gw_return_def gw_init_def exn_bind_def split: sum.splits)

theorem norm_alpha_one_shortcut_witness:
  "is_array [[Fin 1]] \<and> is_array [[Fin 0, Fin 1], [Fin 1, Fin 0]] \<and> is_array [[Fin 2, Fin 4]]
   \<and> gromov_wasserstein_adjusted_norm echo_solver [[Fin 2, Fin 4]] [[Fin 1]]
         [[Fin 0, Fin 1], [Fin 1, Fin 0]] (Fin 1) [Fin 1] [Fin (1/2), Fin (1/2)] ''kl_loss''
         (Fin (1/10)) 1000 (Fin (1/10^9)) None
       = Inr ([[Fin (1/2), Fin 1]], None)"
proof -
  have h: "is_array [[Fin 1]]" "is_array [[Fin 0, Fin 1], [Fin 1, Fin 0]]"
    "is_array [[Fin 2, Fin 4]]"
    by (simp_all add: is_array_def ncols_def)
  from norm_alpha_one_shortcut [OF h, where solver = echo_solver and p = "[Fin 1]"
      and q = "[Fin (1/2), Fin (1/2)]" and loss_fun = "''kl_loss''" and epsilon = "Fin (1/10)"
      and max_iter = 1000 and tol = "Fin (1/10^9)" and ?log0.0 = None] h
  show ?thesis
    by (simp add: normalized_def np_max_def div_scalar_def f_max_def echo_solver_def)
qed

subsection \<open>A loss function that is not wired\<close>

lemma gw_init_sel [simp]:
  "st_err (gw_init p q log0) = Fin 1" "st_cpt (gw_init p q log0) = 0"
  "st_T (gw_init p q log0) = np_outer p q" "st_log (gw_init p q log0) = log0"
  "st_tens (gw_init p q log0) = None"
  by (simp_all add: gw_init_def)

lemma gw_while_enter:
  "f_less tol (st_err st) \<Longrightarrow> st_cpt st < max_iter \<Longrightarrow> body st = Inl e
     \<Longrightarrow> gw_while body tol max_iter st = Inl e"
  by (subst gw_while.simps) simp

lemma unbound_adjusted:
  "loss_fun \<noteq> ''square_loss'' \<Longrightarrow>
   adjusted_body solver cost_mat1 C1 C2 alpha p q loss_fun epsilon (gw_init p q log0)
     = Inl UnboundLocalError"
  by (simp add: adjusted_body_def gw_init_def read_local_def)

lemma unbound_norm:
  "loss_fun \<noteq> ''square_loss'' \<Longrightarrow>
   norm_body solver cost_mat1 C1 C2 alpha p q loss_fun epsilon (gw_init p q log0)
     = Inl UnboundLocalError"
  by (simp add: norm_body_def gw_init_def read_local_def)

lemma unbound_combined:
  "loss_fun \<noteq> ''square_loss'' \<Longrightarrow>
   combined_body solver cost_mat C1 C2 alpha p q loss_fun epsilon (gw_init p q log0)
     = Inl UnboundLocalError"
  by (simp add: combined_body_def gw_init_def read_local_def)

text \<open>
  Claim C4. When the loop body is executed (\<open>1 > tol\<close> and \<open>max_iter > 0\<close>; for the normalized
  blend also \<open>alpha_linear \<noteq> 1\<close>) with \<open>loss_fun\<close> different from \<open>'square_loss'\<close>, no tensor
  is assigned and each of the three drivers raises UnboundLocalError at the first read of
  \<open>tens\<close>. This holds for \<open>'kl_loss'\<close> as for any other value: the KL tensor builder is not
  called by a driver.
\<close>

theorem unset_tensor_fault:
  assumes "is_array C1" "is_array C2" "is_array cost_mat"
    and "loss_fun \<noteq> ''square_loss''" and "f_less tol (Fin 1)" and "0 < max_iter"
  shows "(concat cost_mat \<noteq> [] \<longrightarrow>
            gromov_wasserstein_adjusted solver cost_mat C1 C2 alpha_linear p q loss_fun epsilon
              max_iter tol log0 = Inl UnboundLocalError)
       \<and> (alpha_linear \<noteq> Fin 1 \<longrightarrow>
            gromov_wasserstein_adjusted_norm solver cost_mat C1 C2 alpha_linear p q loss_fun epsilon
              max_iter tol log0 = Inl UnboundLocalError)
       \<and> (concat cost_mat \<noteq> [] \<longrightarrow>
            gromov_wasserstein_adjusted_combined solver cost_mat C1 C2 alpha_linear p q loss_fun
              epsilon max_iter tol log0 = Inl UnboundLocalError)"
proof (intro conjI impI)
  assume ne: "concat cost_mat \<noteq> []"
  then obtain m where m: "normalized cost_mat = Inr (div_scalar cost_mat m)"
    using normalized_nonempty by blast
  have "gw_while (adjusted_body solver (div_scalar cost_mat m) C1 C2 alpha_linear p q loss_fun epsilon)
          tol max_iter (gw_init p q log0) = Inl UnboundLocalError"
    using assms(4-6) by (intro gw_while_enter unbound_adjusted) simp_all
  then show "gromov_wasserstein_adjusted solver cost_mat C1 C2 alpha_linear p q loss_fun epsilon
      max_iter tol log0 = Inl UnboundLocalError"
    using assms(1-3) m by (simp add: gromov_wasserstein_adjusted_def adjusted_run_def)
  have "gw_while (combined_body solver cost_mat C1 C2 alpha_linear p q loss_fun epsilon)
          tol max_iter (gw_init p q log0) = Inl UnboundLocalError"
    using assms(4-6) by (intro gw_while_enter unbound_combined) simp_all
  then show "gromov_wasserstein_adjusted_combined solver cost_mat C1 C2 alpha_linear p q loss_fun
      epsilon max_iter tol log0 = Inl UnboundLocalError"
    using assms(1-3) m by (simp add: gromov_wasserstein_adjusted_combined_def combined_run_def)
next
  assume a: "alpha_linear \<noteq> Fin 1"
  let ?cn = "case normalized cost_mat of Inl e \<Rightarrow> cost_mat | Inr n \<Rightarrow> n"
  have "gw_while (norm_body solver ?cn C1 C2 alpha_linear p q loss_fun epsilon)
          tol max_iter (gw_init p q log0) = Inl UnboundLocalError"
    using assms(4-6) by (intro gw_while_enter unbound_norm) simp_all
  then show "gromov_wasserstein_adjusted_norm solver cost_mat C1 C2 alpha_linear p q loss_fun epsilon
      max_iter tol log0 = Inl UnboundLocalError"
    using assms(1-3) a
    by (simp add: gromov_wasserstein_adjusted_norm_def norm_run_def norm_solve_def)
qed

theorem unset_tensor_fault_witness:
  "is_array [[Fin 1]] \<and> ''kl_loss'' \<noteq> ''square_loss'' \<and> f_less (Fin (1/10^9)) (Fin 1)
   \<and> (0::int) < 1000 \<and> concat [[Fin 1]] \<noteq> [] \<and> Fin (1/2) \<noteq> Fin 1
   \<and> gromov_wasserstein_adjusted echo_solver [[Fin 1]] [[Fin 1]] [[Fin 1]] (Fin (1/2))
         [Fin 1] [Fin 1] ''kl_loss'' (Fin (1/10)) 1000 (Fin (1/10^9)) None = Inl UnboundLocalError
   \<and> gromov_wasserstein_adjusted_norm echo_solver [[Fin 1]] [[Fin 1]] [[Fin 1]] (Fin (1/2))
         [Fin 1] [Fin 1] ''kl_loss'' (Fin (1/10)) 1000 (Fin (1/10^9)) None = Inl UnboundLocalError
   \<and> gromov_wasserstein_adjusted_combined echo_solver [[Fin 1]] [[Fin 1]] [[Fin 1]] (Fin (1/2))
         [Fin 1] [Fin 1] ''kl_loss'' (Fin (1/10)) 1000 (Fin (1/10^9)) None = Inl UnboundLocalError"
proof -
  have h: "is_array [[Fin 1]]" "''kl_loss'' \<noteq> ''square_loss''" "f_less (Fin (1/10^9)) (Fin 1)"
    "(0::int) < 1000"
    by (simp_all add: is_array_def ncols_def)
  have g: "concat [[Fin 1]] \<noteq> []" "Fin (1/2) \<noteq> Fin 1" by simp_all
  from unset_tensor_fault [OF h(1) h(1) h(1) h(2) h(3) h(4), where solver = echo_solver
      and alpha_linear = "Fin (1/2)" and p = "[Fin 1]" and q = "[Fin 1]"
      and epsilon = "Fin (1/10)" and ?log0.0 = None] h g
  show ?thesis by blast
qed

subsection \<open>The unused normalization of the combined driver\<close>

text \<open>
  Claim C10. \<open>gromov_wasserstein_adjusted_combined\<close> computes \<open>cost_mat1\<close> and never reads
  it. Whenever it returns a coupling, the driver without the normalization returns the same
  coupling (and log); and on every \<open>cost_mat\<close> with at least one entry the two drivers agree
  altogether, exceptions included.
\<close>

theorem combined_normalization_unused:
  "(concat cost_mat \<noteq> [] \<longrightarrow>
      gromov_wasserstein_adjusted_combined solver cost_mat C1 C2 alpha_linear p q loss_fun epsilon
        max_iter tol log0
      = combined_without_normalization solver cost_mat C1 C2 alpha_linear p q loss_fun epsilon
          max_iter tol log0)
   \<and> (\<forall>r. gromov_wasserstein_adjusted_combined solver cost_mat C1 C2 alpha_linear p q loss_fun
            epsilon max_iter tol log0 = Inr r \<longrightarrow>
          combined_without_normalization solver cost_mat C1 C2 alpha_linear p q loss_fun epsilon
            max_iter tol log0 = Inr r)"
proof -
  have run: "normalized cost_mat = Inr n \<Longrightarrow>
      combined_run solver cost_mat C1 C2 alpha_linear p q loss_fun epsilon max_iter tol log0
      = combined_run_without_normalization solver cost_mat C1 C2 alpha_linear p q loss_fun epsilon
          max_iter tol log0" for n
    unfolding combined_run_def combined_run_without_normalization_def np_asarray_def
    by (simp add: exn_bind_def)
  have ret: "combined_run solver cost_mat C1 C2 alpha_linear p q loss_fun epsilon max_iter tol log0
      = Inr st \<Longrightarrow> \<exists>n. normalized cost_mat = Inr n" for st
    unfolding combined_run_def np_asarray_def
    by (auto simp: exn_bind_def split: sum.splits if_splits)
  show ?thesis
  proof (intro conjI impI allI)
    assume "concat cost_mat \<noteq> []"
    then obtain n where "normalized cost_mat = Inr n" using normalized_nonempty by blast
    then show "gromov_wasserstein_adjusted_combined solver cost_mat C1 C2 alpha_linear p q loss_fun
        epsilon max_iter tol log0
      = combined_without_normalization solver cost_mat C1 C2 alpha_linear p q loss_fun epsilon
          max_iter tol log0"
      by (simp add: gromov_wasserstein_adjusted_combined_def combined_without_normalization_def run)
  next
    fix r
    assume "gromov_wasserstein_adjusted_combined solver cost_mat C1 C2 alpha_linear p q loss_fun
        epsilon max_iter tol log0 = Inr r"
    then obtain st where st: "combined_run solver cost_mat C1 C2 alpha_linear p q loss_fun epsilon
        max_iter tol log0 = Inr st" "r = gw_return st"
      by (auto simp: gromov_wasserstein_adjusted_combined_def exn_bind_def split: sum.splits)
    then obtain n where "normalized cost_mat = Inr n" using ret by blast
    with st show "combined_without_normalization solver cost_mat C1 C2 alpha_linear p q loss_fun
        epsilon max_iter tol log0 = Inr r"
      by (simp add: combined_without_normalization_def flip: run)
  qed
qed

theorem combined_normalization_unused_witness:
  "concat [[Fin 0]] \<noteq> []
   \<and> gromov_wasserstein_adjusted_combined echo_solver [[Fin 0]] [[Fin 1]] [[Fin 1]] (Fin (1/2))
         [Fin 1] [Fin 1] ''square_loss'' (Fin (1/10)) 1000 (Fin (1/10^9)) None
       = Inr ([[Fin 0]], None)
   \<and> combined_without_normalization echo_solver [[Fin 0]] [[Fin 1]] [[Fin 1]] (Fin (1/2))
         [Fin 1] [Fin 1] ''square_loss'' (Fin (1/10)) 1000 (Fin (1/10^9)) None
       = Inr ([[Fin 0]], None)"
proof -
  have ev: "gromov_wasserstein_adjusted_combined echo_solver [[Fin 0]] [[Fin 1]] [[Fin 1]]
      (Fin (1/2)) [Fin 1] [Fin 1] ''square_loss'' (Fin (1/10)) 1000 (Fin (1/10^9)) None
    = Inr ([[Fin 0]], None)"
    by (simp add: driver_defs array_defs)
  have ne: "concat [[Fin 0]] \<noteq> []" by simp
  from combined_normalization_unused [where solver = echo_solver and cost_mat = "[[Fin 0]]"
      and ?C1.0 = "[[Fin 1]]" and ?C2.0 = "[[Fin 1]]" and alpha_linear = "Fin (1/2)"
      and p = "[Fin 1]" and q = "[Fin 1]" and loss_fun = "''square_loss''"
      and epsilon = "Fin (1/10)" and max_iter = 1000 and tol = "Fin (1/10^9)" and ?log0.0 = None]
    ev ne
  show ?thesis by metis
qed

subsection \<open>The cost tensor of the additive policy\<close>

lemma scalar_ops_matrix_of:
  "div_scalar (matrix_of r c f) m = matrix_of r c (\<lambda>i j. f_div (f i j) m)"
  "mul_scalar (matrix_of r c f) m = matrix_of r c (\<lambda>i j. f_mul (f i j) m)"
  "scalar_mul m (matrix_of r c f) = matrix_of r c (\<lambda>i j. f_mul m (f i j))"
  by (simp_all add: div_scalar_def mul_scalar_def scalar_mul_def matrix_of_def)

lemma adjusted_cost_tensor_float:
  assumes "has_shape ns ns C1" "has_shape nt nt C2" "has_shape ns nt cost_mat"
    and "has_shape ns nt (st_T st)" "0 < ns" "0 < nt"
  shows "\<exists>m tens mx. np_max cost_mat = Inr m
           \<and> adjusted_run solver cost_mat C1 C2 alpha p q loss_fun epsilon max_iter tol log0
             = gw_while (adjusted_body solver (div_scalar cost_mat m) C1 C2 alpha p q loss_fun
                 epsilon) tol max_iter (gw_init p q log0)
           \<and> tensor_square_loss_mine C1 C2 (st_T st) = Inr tens
           \<and> np_max tens = Inr mx
           \<and> adjusted_body solver (div_scalar cost_mat m) C1 C2 alpha p q ''square_loss''
               epsilon st
             = exn_bind (solver p q (matrix_of ns nt (\<lambda>i j.
                   f_add (tens ! i ! j) (f_mul alpha (f_mul (f_div (cost_mat ! i ! j) m) mx))))
                 epsilon)
               (\<lambda>T'. check_error T' (st_T st)
                  (st\<lparr>st_T := T',
                      st_tens := Some (matrix_of ns nt (\<lambda>i j.
                        f_add (tens ! i ! j)
                          (f_mul alpha (f_mul (f_div (cost_mat ! i ! j) m) mx))))\<rparr>))"
proof -
  obtain m where m: "np_max cost_mat = Inr m"
    using has_shape_max assms(3,5,6) by blast
  then have n: "normalized cost_mat = Inr (div_scalar cost_mat m)"
    by (simp add: normalized_def)
  have run: "adjusted_run solver cost_mat C1 C2 alpha p q loss_fun epsilon max_iter tol log0
      = gw_while (adjusted_body solver (div_scalar cost_mat m) C1 C2 alpha p q loss_fun
          epsilon) tol max_iter (gw_init p q log0)"
    using assms(1,2,3,5,6) n by (simp add: adjusted_run_def has_shape_asarray)
  obtain tens where t: "tensor_square_loss_mine C1 C2 (st_T st) = Inr tens" "has_shape ns nt tens"
    using has_shape_tensor_square_loss_mine [OF assms(1,2,4,5,6)] by blast
  obtain mx where mx: "np_max tens = Inr mx" using has_shape_max t(2) assms(5,6) by blast
  have c: "cost_mat = matrix_of ns nt (\<lambda>i j. cost_mat ! i ! j)"
    using assms(3) by (rule has_shape_matrix_of)
  have "scalar_mul alpha (mul_scalar (div_scalar (matrix_of ns nt (\<lambda>i j. cost_mat ! i ! j)) m) mx)
      = matrix_of ns nt (\<lambda>i j. f_mul alpha (f_mul (f_div (cost_mat ! i ! j) m) mx))"
    by (simp only: scalar_ops_matrix_of)
  then have c2: "scalar_mul alpha (mul_scalar (div_scalar cost_mat m) mx)
      = matrix_of ns nt (\<lambda>i j. f_mul alpha (f_mul (f_div (cost_mat ! i ! j) m) mx))"
    using c by simp
  have tt: "tens = matrix_of ns nt (\<lambda>i j. tens ! i ! j)"
    using t(2) by (rule has_shape_matrix_of)
  have "np_iadd (matrix_of ns nt (\<lambda>i j. tens ! i ! j))
          (matrix_of ns nt (\<lambda>i j. f_mul alpha (f_mul (f_div (cost_mat ! i ! j) m) mx)))
      = Inr (matrix_of ns nt (\<lambda>i j.
          f_add (tens ! i ! j) (f_mul alpha (f_mul (f_div (cost_mat ! i ! j) m) mx))))"
    using assms(5) by (rule np_iadd_matrix_of)
  then have add: "np_iadd tens (scalar_mul alpha (mul_scalar (div_scalar cost_mat m) mx))
      = Inr (matrix_of ns nt (\<lambda>i j.
          f_add (tens ! i ! j) (f_mul alpha (f_mul (f_div (cost_mat ! i ! j) m) mx))))"
    unfolding c2 using tt by simp
  have "adjusted_body solver (div_scalar cost_mat m) C1 C2 alpha p q ''square_loss'' epsilon st
      = exn_bind (solver p q (matrix_of ns nt (\<lambda>i j.
            f_add (tens ! i ! j) (f_mul alpha (f_mul (f_div (cost_mat ! i ! j) m) mx))))
          epsilon)
        (\<lambda>T'. check_error T' (st_T st)
           (st\<lparr>st_T := T',
               st_tens := Some (matrix_of ns nt (\<lambda>i j.
                 f_add (tens ! i ! j)
                   (f_mul alpha (f_mul (f_div (cost_mat ! i ! j) m) mx))))\<rparr>))"
    unfolding adjusted_body_def Let_def
    by (simp add: t(1) read_local_def mx add)
  with m run t(1) mx show ?thesis by blast
qed

lemma adjusted_cost_tensor_real:
  assumes "has_shape ns ns C1" "has_shape nt nt C2" "has_shape ns nt T" "has_shape ns nt cost_mat"
    and "1 \<le> ns" "1 \<le> nt" and "Max (set (concat cost_mat)) \<noteq> 0"
    and "tens = min_shifted (matrix_of ns nt (square_loss_cross C1 C2 T))"
    and "cost_mat1 = matrix_of ns nt (\<lambda>i j. cost_mat ! i ! j / Max (set (concat cost_mat)))"
  shows "adjusted_run solver (of_reals cost_mat) (of_reals C1) (of_reals C2) (Fin alpha) p q
           loss_fun epsilon max_iter tol log0
         = gw_while (adjusted_body solver (of_reals cost_mat1) (of_reals C1) (of_reals C2)
             (Fin alpha) p q loss_fun epsilon) tol max_iter (gw_init p q log0)
       \<and> (\<forall>st. st_T st = of_reals T \<longrightarrow>
            adjusted_body solver (of_reals cost_mat1) (of_reals C1) (of_reals C2) (Fin alpha) p q
              ''square_loss'' epsilon st
            = exn_bind (solver p q (of_reals (matrix_of ns nt (additive_cost alpha cost_mat tens)))
                          epsilon)
                (\<lambda>T'. check_error T' (of_reals T)
                   (st\<lparr>st_T := T',
                       st_tens := Some (of_reals (matrix_of ns nt
                                          (additive_cost alpha cost_mat tens)))\<rparr>)))"
proof (intro conjI allI impI)
  have pos: "0 < ns" "0 < nt" using assms(5,6) by simp_all
  have arr: "np_asarray (of_reals C1) = Inr (of_reals C1)"
    "np_asarray (of_reals C2) = Inr (of_reals C2)"
    "np_asarray (of_reals cost_mat) = Inr (of_reals cost_mat)"
    using assms(1,2,4) pos by (simp_all add: np_asarray_of_reals)
  show "adjusted_run solver (of_reals cost_mat) (of_reals C1) (of_reals C2) (Fin alpha) p q
           loss_fun epsilon max_iter tol log0
         = gw_while (adjusted_body solver (of_reals cost_mat1) (of_reals C1) (of_reals C2)
             (Fin alpha) p q loss_fun epsilon) tol max_iter (gw_init p q log0)"
    unfolding adjusted_run_def assms(9)
    by (simp add: arr normalized_of_reals [OF assms(4) pos assms(7)])
next
  fix st :: gw_state assume T: "st_T st = of_reals T"
  have pos: "0 < ns" "0 < nt" using assms(5,6) by simp_all
  let ?g = "square_loss_cross C1 C2 T"
  let ?t = "\<lambda>i j. ?g i j - Min (set (concat (matrix_of ns nt ?g)))"
  let ?mc = "Max (set (concat cost_mat))"
  let ?mt = "Max (set (concat tens))"
  have tens: "tens = matrix_of ns nt ?t"
    unfolding assms(8) by (rule min_shifted_matrix_of)
  have ne: "concat tens \<noteq> []"
    unfolding tens using pos by (rule concat_matrix_of_nonempty)
  have sq: "tensor_square_loss_mine (of_reals C1) (of_reals C2) (of_reals T) = Inr (of_reals tens)"
    unfolding assms(8) using assms(1-3) pos by (rule tensor_square_loss_mine_of_reals)
  have mx: "np_max (of_reals tens) = Inr (Fin ?mt)" using ne by (rule np_max_of_reals)
  have ot: "of_reals tens = matrix_of ns nt (\<lambda>i j. Fin (?t i j))"
    unfolding tens by (rule of_reals_matrix_of)
  have e: "tens ! i ! j = ?t i j" if "i < ns" "j < nt" for i j
    unfolding tens using that by (simp add: matrix_of_def)
  have c2: "scalar_mul (Fin alpha) (mul_scalar (of_reals cost_mat1) (Fin ?mt))
      = matrix_of ns nt (\<lambda>i j. Fin (alpha * (cost_mat ! i ! j / ?mc * ?mt)))"
    unfolding assms(9) by (simp only: of_reals_matrix_of mul_scalar_matrix_of scalar_mul_matrix_of)
  have "np_iadd (of_reals tens) (scalar_mul (Fin alpha) (mul_scalar (of_reals cost_mat1) (Fin ?mt)))
      = Inr (matrix_of ns nt (\<lambda>i j. Fin (?t i j + alpha * (cost_mat ! i ! j / ?mc * ?mt))))"
    unfolding ot c2 using np_iadd_matrix_of [OF pos(1), of nt "\<lambda>i j. Fin (?t i j)"
        "\<lambda>i j. Fin (alpha * (cost_mat ! i ! j / ?mc * ?mt))"] by simp
  also have "matrix_of ns nt (\<lambda>i j. Fin (?t i j + alpha * (cost_mat ! i ! j / ?mc * ?mt)))
      = matrix_of ns nt (\<lambda>i j. Fin (additive_cost alpha cost_mat tens i j))"
    by (rule matrix_of_cong) (simp add: additive_cost_def e)
  finally have add: "np_iadd (of_reals tens)
        (scalar_mul (Fin alpha) (mul_scalar (of_reals cost_mat1) (Fin ?mt)))
      = Inr (of_reals (matrix_of ns nt (additive_cost alpha cost_mat tens)))"
    by (simp only: of_reals_matrix_of)
  show "adjusted_body solver (of_reals cost_mat1) (of_reals C1) (of_reals C2) (Fin alpha) p q
              ''square_loss'' epsilon st
            = exn_bind (solver p q (of_reals (matrix_of ns nt (additive_cost alpha cost_mat tens)))
                          epsilon)
                (\<lambda>T'. check_error T' (of_reals T)
                   (st\<lparr>st_T := T',
                       st_tens := Some (of_reals (matrix_of ns nt
                                          (additive_cost alpha cost_mat tens)))\<rparr>))"
    unfolding adjusted_body_def Let_def T
    by (simp add: sq read_local_def mx add del: set_concat)
qed

text \<open>
  Claim C5. \<open>gromov_wasserstein_adjusted\<close> normalizes \<open>cost_mat\<close> once, before the loop, to
  \<open>cost_mat1 = cost_mat / max(cost_mat)\<close>, and in an iteration that starts from the coupling
  \<open>T\<close> the solver is called on the matrix with entries
  \<open>tens[i][j] + alpha_linear * (cost_mat[i][j] / max(cost_mat)) * max(tens)\<close>, where \<open>tens\<close>
  is the square-loss tensor of \<open>C1\<close>, \<open>C2\<close> and \<open>T\<close>. The first part states this for all
  arrays of the specified shapes, in float arithmetic, whatever their entries and whatever
  the maximum of \<open>cost_mat\<close>. The second part reads it over the reals: for real arguments
  and a cost matrix whose maximum is not zero, the solver receives the real matrix
  \<open>additive_cost\<close>.
\<close>

theorem adjusted_cost_tensor:
  assumes "1 \<le> ns" "1 \<le> nt"
  shows "(has_shape ns ns A1 \<and> has_shape nt nt A2 \<and> has_shape ns nt Ac
           \<and> has_shape ns nt (st_T st) \<longrightarrow>
          (\<exists>m tens mx. np_max Ac = Inr m
             \<and> adjusted_run solver Ac A1 A2 a p q loss_fun epsilon max_iter tol log0
               = gw_while (adjusted_body solver (div_scalar Ac m) A1 A2 a p q loss_fun
                   epsilon) tol max_iter (gw_init p q log0)
             \<and> tensor_square_loss_mine A1 A2 (st_T st) = Inr tens
             \<and> np_max tens = Inr mx
             \<and> adjusted_body solver (div_scalar Ac m) A1 A2 a p q ''square_loss'' epsilon st
               = exn_bind (solver p q (matrix_of ns nt (\<lambda>i j.
                     f_add (tens ! i ! j) (f_mul a (f_mul (f_div (Ac ! i ! j) m) mx))))
                   epsilon)
                 (\<lambda>T'. check_error T' (st_T st)
                    (st\<lparr>st_T := T',
                        st_tens := Some (matrix_of ns nt (\<lambda>i j.
                          f_add (tens ! i ! j)
                            (f_mul a (f_mul (f_div (Ac ! i ! j) m) mx))))\<rparr>))))
       \<and> (has_shape ns ns C1 \<and> has_shape nt nt C2 \<and> has_shape ns nt T
           \<and> has_shape ns nt cost_mat \<and> Max (set (concat cost_mat)) \<noteq> 0
           \<and> rtens = min_shifted (matrix_of ns nt (square_loss_cross C1 C2 T))
           \<and> cost_mat1 = matrix_of ns nt (\<lambda>i j. cost_mat ! i ! j / Max (set (concat cost_mat)))
           \<longrightarrow>
          adjusted_run solver (of_reals cost_mat) (of_reals C1) (of_reals C2) (Fin alpha) p q
             loss_fun epsilon max_iter tol log0
           = gw_while (adjusted_body solver (of_reals cost_mat1) (of_reals C1) (of_reals C2)
               (Fin alpha) p q loss_fun epsilon) tol max_iter (gw_init p q log0)
          \<and> (\<forall>rst. st_T rst = of_reals T \<longrightarrow>
              adjusted_body solver (of_reals cost_mat1) (of_reals C1) (of_reals C2) (Fin alpha)
                p q ''square_loss'' epsilon rst
              = exn_bind (solver p q
                    (of_reals (matrix_of ns nt (additive_cost alpha cost_mat rtens))) epsilon)
                  (\<lambda>T'. check_error T' (of_reals T)
                     (rst\<lparr>st_T := T',
                         st_tens := Some (of_reals (matrix_of ns nt
                                            (additive_cost alpha cost_mat rtens)))\<rparr>))))"
proof (intro conjI impI)
  have pos: "0 < ns" "0 < nt" using assms by simp_all
  assume "has_shape ns ns A1 \<and> has_shape nt nt A2 \<and> has_shape ns nt Ac
           \<and> has_shape ns nt (st_T st)"
  then show "\<exists>m tens mx. np_max Ac = Inr m
             \<and> adjusted_run solver Ac A1 A2 a p q loss_fun epsilon max_iter tol log0
               = gw_while (adjusted_body solver (div_scalar Ac m) A1 A2 a p q loss_fun
                   epsilon) tol max_iter (gw_init p q log0)
             \<and> tensor_square_loss_mine A1 A2 (st_T st) = Inr tens
             \<and> np_max tens = Inr mx
             \<and> adjusted_body solver (div_scalar Ac m) A1 A2 a p q ''square_loss'' epsilon st
               = exn_bind (solver p q (matrix_of ns nt (\<lambda>i j.
                     f_add (tens ! i ! j) (f_mul a (f_mul (f_div (Ac ! i ! j) m) mx))))
                   epsilon)
                 (\<lambda>T'. check_error T' (st_T st)
                    (st\<lparr>st_T := T',
                        st_tens := Some (matrix_of ns nt (\<lambda>i j.
                          f_add (tens ! i ! j)
                            (f_mul a (f_mul (f_div (Ac ! i ! j) m) mx))))\<rparr>))"
    using pos by (intro adjusted_cost_tensor_float) simp_all
next
  assume r: "has_shape ns ns C1 \<and> has_shape nt nt C2 \<and> has_shape ns nt T
           \<and> has_shape ns nt cost_mat \<and> Max (set (concat cost_mat)) \<noteq> 0
           \<and> rtens = min_shifted (matrix_of ns nt (square_loss_cross C1 C2 T))
           \<and> cost_mat1 = matrix_of ns nt (\<lambda>i j. cost_mat ! i ! j / Max (set (concat cost_mat)))"
  note real = adjusted_cost_tensor_real [where ns = ns and nt = nt and ?C1.0 = C1 and ?C2.0 = C2
      and T = T and cost_mat = cost_mat and tens = rtens and ?cost_mat1.0 = cost_mat1
      and solver = solver and alpha = alpha and p = p and q = q and epsilon = epsilon]
  from r assms real [where loss_fun = loss_fun and max_iter = max_iter and tol = tol
      and ?log0.0 = log0]
  show "adjusted_run solver (of_reals cost_mat) (of_reals C1) (of_reals C2) (Fin alpha) p q
             loss_fun epsilon max_iter tol log0
           = gw_while (adjusted_body solver (of_reals cost_mat1) (of_reals C1) (of_reals C2)
               (Fin alpha) p q loss_fun epsilon) tol max_iter (gw_init p q log0)"
    by blast
  from r assms real show "\<forall>rst. st_T rst = of_reals T \<longrightarrow>
              adjusted_body solver (of_reals cost_mat1) (of_reals C1) (of_reals C2) (Fin alpha)
                p q ''square_loss'' epsilon rst
              = exn_bind (solver p q
                    (of_reals (matrix_of ns nt (additive_cost alpha cost_mat rtens))) epsilon)
                  (\<lambda>T'. check_error T' (of_reals T)
                     (rst\<lparr>st_T := T',
                         st_tens := Some (of_reals (matrix_of ns nt
                                            (additive_cost alpha cost_mat rtens)))\<rparr>))"
    by blast
qed

theorem adjusted_cost_tensor_witness:
  "(1::nat) \<le> 2
   \<and> has_shape 2 2 [[0, 1], [1, 0::real]] \<and> has_shape 2 2 [[1/2, 0], [0, 1/2::real]]
   \<and> has_shape 2 2 [[1, 2], [3, 4::real]]
   \<and> Max (set (concat [[1, 2], [3, 4::real]])) = 4
   \<and> min_shifted (matrix_of 2 2
         (square_loss_cross [[0, 1], [1, 0]] [[0, 1], [1, 0]] [[1/2, 0], [0, 1/2]]))
       = [[0, 1/2], [1/2, 0]]
   \<and> Max (set (concat [[0, 1/2], [1/2, 0::real]])) = 1/2
   \<and> matrix_of 2 2 (additive_cost (1/2) [[1, 2], [3, 4]] [[0, 1/2], [1/2, 0]])
       = [[1/16, 5/8], [11/16, 1/4]]
   \<and> adjusted_body echo_solver (of_reals [[1/4, 1/2], [3/4, 1]]) (of_reals [[0, 1], [1, 0]])
         (of_reals [[0, 1], [1, 0]]) (Fin (1/2)) [Fin (1/2), Fin (1/2)] [Fin (1/2), Fin (1/2)]
         ''square_loss'' (Fin (1/10))
         \<lparr>st_T = of_reals [[1/2, 0], [0, 1/2]], st_tens = None, st_cpt = 1, st_err = Fin 1,
          st_log = None\<rparr>
       = Inr \<lparr>st_T = of_reals [[1/16, 5/8], [11/16, 1/4]],
              st_tens = Some (of_reals [[1/16, 5/8], [11/16, 1/4]]), st_cpt = 1,
              st_err = Fin 1, st_log = None\<rparr>
   \<and> has_shape 2 2 (of_reals [[0, 1], [1, 0]]) \<and> has_shape 2 2 (of_reals [[1/2, 0], [0, 1/2]])
   \<and> has_shape 2 2 [[Fin 0, Fin 0], [Fin 0, Fin 0]]
   \<and> np_max [[Fin 0, Fin 0], [Fin 0, Fin 0]] = Inr (Fin 0)
   \<and> adjusted_body echo_solver (div_scalar [[Fin 0, Fin 0], [Fin 0, Fin 0]] (Fin 0))
         (of_reals [[0, 1], [1, 0]]) (of_reals [[0, 1], [1, 0]]) (Fin (1/2))
         [Fin (1/2), Fin (1/2)] [Fin (1/2), Fin (1/2)] ''square_loss'' (Fin (1/10))
         \<lparr>st_T = of_reals [[1/2, 0], [0, 1/2]], st_tens = None, st_cpt = 1, st_err = Fin 1,
          st_log = None\<rparr>
       = Inr \<lparr>st_T = [[NaN, NaN], [NaN, NaN]], st_tens = Some [[NaN, NaN], [NaN, NaN]],
              st_cpt = 1, st_err = Fin 1, st_log = None\<rparr>"
proof -
  let ?C = "[[0, 1], [1, 0::real]]" and ?T = "[[1/2, 0], [0, 1/2::real]]"
    and ?M = "[[1, 2], [3, 4::real]]"
  let ?Z = "[[Fin 0, Fin 0], [Fin 0, Fin 0]]"
  let ?st = "\<lparr>st_T = of_reals ?T, st_tens = None, st_cpt = 1, st_err = Fin 1, st_log = None\<rparr>"
  have h: "(1::nat) \<le> 2" "has_shape 2 2 ?C" "has_shape 2 2 ?T" "has_shape 2 2 ?M"
    by (simp_all add: has_shape_def)
  have mc: "Max (set (concat ?M)) = 4" by simp
  have mt: "Max (set (concat [[0, 1/2], [1/2, 0::real]])) = 1/2" by simp
  have t: "min_shifted (matrix_of 2 2 (square_loss_cross ?C ?C ?T)) = [[0, 1/2], [1/2, 0]]"
    by (simp add: min_shifted_def matrix_of_def square_loss_cross_def numeral_2_eq_2
        lessThan_Suc upt_conv_Cons)
  have c1: "matrix_of 2 2 (\<lambda>i j. ?M ! i ! j / Max (set (concat ?M))) = [[1/4, 1/2], [3/4, 1]]"
    unfolding mc by (simp add: matrix_of_def numeral_2_eq_2 upt_conv_Cons)
  have x: "matrix_of 2 2 (additive_cost (1/2) ?M [[0, 1/2], [1/2, 0]])
      = [[1/16, 5/8], [11/16, 1/4]]"
    unfolding additive_cost_def mc mt by (simp add: matrix_of_def numeral_2_eq_2 upt_conv_Cons)
  have s: "st_T ?st = of_reals ?T" by simp
  from adjusted_cost_tensor [OF h(1) h(1), where ?C1.0 = ?C and ?C2.0 = ?C and T = ?T
      and cost_mat = ?M and rtens = "min_shifted (matrix_of 2 2 (square_loss_cross ?C ?C ?T))"
      and ?cost_mat1.0 = "matrix_of 2 2 (\<lambda>i j. ?M ! i ! j / Max (set (concat ?M)))"
      and solver = echo_solver and alpha = "1/2" and p = "[Fin (1/2), Fin (1/2)]"
      and q = "[Fin (1/2), Fin (1/2)]" and epsilon = "Fin (1/10)"] h mc s
  have "adjusted_body echo_solver
         (of_reals (matrix_of 2 2 (\<lambda>i j. ?M ! i ! j / Max (set (concat ?M)))))
         (of_reals ?C) (of_reals ?C) (Fin (1/2)) [Fin (1/2), Fin (1/2)] [Fin (1/2), Fin (1/2)]
         ''square_loss'' (Fin (1/10)) ?st
      = exn_bind (echo_solver [Fin (1/2), Fin (1/2)] [Fin (1/2), Fin (1/2)]
            (of_reals (matrix_of 2 2 (additive_cost (1/2) ?M
               (min_shifted (matrix_of 2 2 (square_loss_cross ?C ?C ?T))))))
            (Fin (1/10)))
          (\<lambda>T'. check_error T' (of_reals ?T)
             (?st\<lparr>st_T := T',
                 st_tens := Some (of_reals (matrix_of 2 2 (additive_cost (1/2) ?M
                   (min_shifted (matrix_of 2 2 (square_loss_cross ?C ?C ?T))))))\<rparr>))"
    by simp
  then have b: "adjusted_body echo_solver (of_reals [[1/4, 1/2], [3/4, 1]])
         (of_reals ?C) (of_reals ?C) (Fin (1/2)) [Fin (1/2), Fin (1/2)] [Fin (1/2), Fin (1/2)]
         ''square_loss'' (Fin (1/10)) ?st
      = Inr \<lparr>st_T = of_reals [[1/16, 5/8], [11/16, 1/4]],
              st_tens = Some (of_reals [[1/16, 5/8], [11/16, 1/4]]), st_cpt = 1,
              st_err = Fin 1, st_log = None\<rparr>"
    unfolding c1 t x by (simp add: echo_solver_def check_error_def)
  have fh: "has_shape 2 2 (of_reals ?C)" "has_shape 2 2 (of_reals ?T)" "has_shape 2 2 ?Z"
    by (simp_all add: has_shape_def of_reals_def)
  have zm: "np_max ?Z = Inr (Fin 0)" by (simp add: array_defs)
  have sf: "has_shape 2 2 (st_T ?st)" using fh(2) by simp
  have nan: "f_add y (f_mul a (f_mul (f_inf 0) z)) = NaN" for y a z
    by (cases y; cases a; simp add: f_inf_def)
  from adjusted_cost_tensor [OF h(1) h(1), where ?A1.0 = "of_reals ?C" and ?A2.0 = "of_reals ?C"
      and Ac = ?Z and st = ?st and solver = echo_solver and a = "Fin (1/2)"
      and p = "[Fin (1/2), Fin (1/2)]" and q = "[Fin (1/2), Fin (1/2)]"
      and epsilon = "Fin (1/10)"] fh sf
  obtain m tens mx where m: "np_max ?Z = Inr m"
    and fb: "adjusted_body echo_solver (div_scalar ?Z m) (of_reals ?C) (of_reals ?C) (Fin (1/2))
         [Fin (1/2), Fin (1/2)] [Fin (1/2), Fin (1/2)] ''square_loss'' (Fin (1/10)) ?st
       = exn_bind (echo_solver [Fin (1/2), Fin (1/2)] [Fin (1/2), Fin (1/2)]
           (matrix_of 2 2 (\<lambda>i j. f_add (tens ! i ! j)
               (f_mul (Fin (1/2)) (f_mul (f_div (?Z ! i ! j) m) mx)))) (Fin (1/10)))
           (\<lambda>T'. check_error T' (st_T ?st)
              (?st\<lparr>st_T := T',
                  st_tens := Some (matrix_of 2 2 (\<lambda>i j. f_add (tens ! i ! j)
                      (f_mul (Fin (1/2)) (f_mul (f_div (?Z ! i ! j) m) mx))))\<rparr>))"
    by blast
  from m zm have m0: "m = Fin 0" by simp
  have mz: "matrix_of 2 2 (\<lambda>i j. f_add (tens ! i ! j)
               (f_mul (Fin (1/2)) (f_mul (f_div (?Z ! i ! j) (Fin 0)) mx)))
      = [[NaN, NaN], [NaN, NaN]]"
    by (simp add: matrix_of_def numeral_2_eq_2 upt_conv_Cons nan)
  have fb': "adjusted_body echo_solver (div_scalar ?Z (Fin 0)) (of_reals ?C) (of_reals ?C)
         (Fin (1/2)) [Fin (1/2), Fin (1/2)] [Fin (1/2), Fin (1/2)] ''square_loss'' (Fin (1/10))
         ?st
       = Inr \<lparr>st_T = [[NaN, NaN], [NaN, NaN]], st_tens = Some [[NaN, NaN], [NaN, NaN]],
              st_cpt = 1, st_err = Fin 1, st_log = None\<rparr>"
    using fb unfolding m0 mz by (simp add: echo_solver_def check_error_def)
  from h mc t mt x b have real_part: "(1::nat) \<le> 2
   \<and> has_shape 2 2 [[0, 1], [1, 0::real]] \<and> has_shape 2 2 [[1/2, 0], [0, 1/2::real]]
   \<and> has_shape 2 2 [[1, 2], [3, 4::real]]
   \<and> Max (set (concat [[1, 2], [3, 4::real]])) = 4
   \<and> min_shifted (matrix_of 2 2
         (square_loss_cross [[0, 1], [1, 0]] [[0, 1], [1, 0]] [[1/2, 0], [0, 1/2]]))
       = [[0, 1/2], [1/2, 0]]
   \<and> Max (set (concat [[0, 1/2], [1/2, 0::real]])) = 1/2
   \<and> matrix_of 2 2 (additive_cost (1/2) [[1, 2], [3, 4]] [[0, 1/2], [1/2, 0]])
       = [[1/16, 5/8], [11/16, 1/4]]
   \<and> adjusted_body echo_solver (of_reals [[1/4, 1/2], [3/4, 1]]) (of_reals [[0, 1], [1, 0]])
         (of_reals [[0, 1], [1, 0]]) (Fin (1/2)) [Fin (1/2), Fin (1/2)] [Fin (1/2), Fin (1/2)]
         ''square_loss'' (Fin (1/10))
         \<lparr>st_T = of_reals [[1/2, 0], [0, 1/2]], st_tens = None, st_cpt = 1, st_err = Fin 1,
          st_log = None\<rparr>
       = Inr \<lparr>st_T = of_reals [[1/16, 5/8], [11/16, 1/4]],
              st_tens = Some (of_reals [[1/16, 5/8], [11/16, 1/4]]), st_cpt = 1,
              st_err = Fin 1, st_log = None\<rparr>"
    by simp
  from real_part fh zm fb' show ?thesis by (intro conjI) (elim conjE, assumption)+
qed

subsection \<open>Termination and the iteration bound\<close>

lemma solver_contract_echo: "solver_contract echo_solver p q epsilon ns nt"
  by (simp add: solver_contract_def echo_solver_def)

lemma check_error_returns:
  assumes "has_shape ns nt T" "has_shape ns nt Tprev" "0 < ns"
  shows "\<exists>st'. check_error T Tprev st = Inr st' \<and> st_T st' = st_T st"
proof -
  obtain d where "np_subtract T Tprev = Inr d"
    unfolding np_subtract_def using has_shape_elementwise [OF assms] by blast
  then show ?thesis by (simp add: check_error_def Let_def)
qed

lemma adjusted_body_returns:
  assumes "has_shape ns ns C1" "has_shape nt nt C2" "has_shape ns nt cost_mat1" "0 < ns" "0 < nt"
    and "solver_contract solver p q epsilon ns nt"
    and "has_shape ns nt (st_T st)"
  shows "\<exists>st'. adjusted_body solver cost_mat1 C1 C2 alpha p q ''square_loss'' epsilon st = Inr st'
           \<and> has_shape ns nt (st_T st')"
proof -
  obtain t where t: "tensor_square_loss_mine C1 C2 (st_T st) = Inr t" "has_shape ns nt t"
    using has_shape_tensor_square_loss_mine [OF assms(1,2,7,4,5)] by blast
  obtain mx where mx: "np_max t = Inr mx" using has_shape_max t(2) assms(4,5) by blast
  have "has_shape ns nt (scalar_mul alpha (mul_scalar cost_mat1 mx))"
    using assms(3) by (simp add: scalar_mul_def mul_scalar_def has_shape_map)
  then obtain t' where t': "np_iadd t (scalar_mul alpha (mul_scalar cost_mat1 mx)) = Inr t'"
      "has_shape ns nt t'"
    using has_shape_iadd [OF t(2) _ assms(4)] by blast
  obtain T where T: "solver p q t' epsilon = Inr T" "has_shape ns nt T"
    using assms(6) t'(2) unfolding solver_contract_def by blast
  obtain st' where "check_error T (st_T st) (st\<lparr>st_T := T, st_tens := Some t'\<rparr>) = Inr st'"
      "st_T st' = T"
    using check_error_returns [OF T(2) assms(7,4), of "st\<lparr>st_T := T, st_tens := Some t'\<rparr>"] by auto
  then show ?thesis
    using t mx t' T by (simp add: adjusted_body_def read_local_def Let_def)
qed

lemma norm_body_returns:
  assumes "has_shape ns ns C1" "has_shape nt nt C2" "has_shape ns nt cost_mat_norm" "0 < ns" "0 < nt"
    and "solver_contract solver p q epsilon ns nt"
    and "has_shape ns nt (st_T st)"
  shows "\<exists>st'. norm_body solver cost_mat_norm C1 C2 alpha p q ''square_loss'' epsilon st = Inr st'
           \<and> has_shape ns nt (st_T st')"
proof -
  obtain t where t: "tensor_square_loss_mine C1 C2 (st_T st) = Inr t" "has_shape ns nt t"
    using has_shape_tensor_square_loss_mine [OF assms(1,2,7,4,5)] by blast
  have a: "has_shape ns nt (scalar_mul (f_sub (Fin 1) alpha) t)"
    using t(2) by (simp add: scalar_mul_def has_shape_map)
  have b: "has_shape ns nt (scalar_mul alpha cost_mat_norm)"
    using assms(3) by (simp add: scalar_mul_def has_shape_map)
  obtain t' where t': "np_add (scalar_mul (f_sub (Fin 1) alpha) t) (scalar_mul alpha cost_mat_norm)
      = Inr t'" "has_shape ns nt t'"
    unfolding np_add_def using has_shape_elementwise [OF a b assms(4)] by blast
  obtain T where T: "solver p q t' epsilon = Inr T" "has_shape ns nt T"
    using assms(6) t'(2) unfolding solver_contract_def by blast
  obtain st' where "check_error T (st_T st) (st\<lparr>st_T := T, st_tens := Some t\<rparr>) = Inr st'"
      "st_T st' = T"
    using check_error_returns [OF T(2) assms(7,4), of "st\<lparr>st_T := T, st_tens := Some t\<rparr>"] by auto
  then show ?thesis
    using t t' T by (simp add: norm_body_def read_local_def Let_def)
qed

lemma combined_body_returns:
  assumes "has_shape ns ns C1" "has_shape nt nt C2" "has_shape ns nt cost_mat" "0 < ns" "0 < nt"
    and "solver_contract solver p q epsilon ns nt"
    and "has_shape ns nt (st_T st)"
  shows "\<exists>st'. combined_body solver cost_mat C1 C2 alpha p q ''square_loss'' epsilon st = Inr st'
           \<and> has_shape ns nt (st_T st')"
proof -
  obtain t where t: "tensor_square_loss_mine_combined C1 C2 (st_T st) cost_mat alpha = Inr t"
      "has_shape ns nt t"
    using has_shape_tensor_square_loss_mine_combined [OF assms(1,2,7,3,4,5)] by blast
  obtain T where T: "solver p q t epsilon = Inr T" "has_shape ns nt T"
    using assms(6) t(2) unfolding solver_contract_def by blast
  obtain st' where "check_error T (st_T st) (st\<lparr>st_T := T, st_tens := Some t\<rparr>) = Inr st'"
      "st_T st' = T"
    using check_error_returns [OF T(2) assms(7,4), of "st\<lparr>st_T := T, st_tens := Some t\<rparr>"] by auto
  then show ?thesis
    using t T by (simp add: combined_body_def read_local_def Let_def)
qed

lemma gw_while_returns:
  assumes "\<And>st. has_shape ns nt (st_T st) \<Longrightarrow>
                   \<exists>st'. body st = Inr st' \<and> has_shape ns nt (st_T st')"
    and "has_shape ns nt (st_T st)"
  shows "\<exists>st'. gw_while body tol max_iter st = Inr st' \<and> has_shape ns nt (st_T st')
           \<and> (st_cpt st \<le> max_iter \<longrightarrow> st_cpt st' \<le> max_iter)
           \<and> \<not> (f_less tol (st_err st') \<and> st_cpt st' < max_iter)"
  using assms
proof (induction body tol max_iter st rule: gw_while.induct)
  case (1 body tol max_iter st)
  note step = "1.prems"(1)
  show ?case
  proof (cases "f_less tol (st_err st) \<and> st_cpt st < max_iter")
    case False
    then have "gw_while body tol max_iter st = Inr st"
      by (subst gw_while.simps) auto
    then show ?thesis using "1.prems"(2) False by blast
  next
    case True
    obtain st1 where st1: "body st = Inr st1" "has_shape ns nt (st_T st1)"
      using step [OF "1.prems"(2)] by blast
    let ?st2 = "st1\<lparr>st_cpt := st_cpt st + 1\<rparr>"
    have sh: "has_shape ns nt (st_T ?st2)" using st1(2) by simp
    from "1.IH" [OF True st1(1) step sh]
    obtain st' where st': "gw_while body tol max_iter ?st2 = Inr st'" "has_shape ns nt (st_T st')"
      "st_cpt ?st2 \<le> max_iter \<longrightarrow> st_cpt st' \<le> max_iter"
      "\<not> (f_less tol (st_err st') \<and> st_cpt st' < max_iter)"
      by blast
    have eq: "gw_while body tol max_iter st = Inr st'"
      using True st1(1) st'(1) by (subst gw_while.simps) simp
    have "st_cpt st \<le> max_iter \<longrightarrow> st_cpt st' \<le> max_iter"
      using st'(3) True by simp
    with eq st'(2,4) show ?thesis by blast
  qed
qed

lemma adjusted_returns:
  assumes "has_shape ns ns C1" "has_shape nt nt C2" "has_shape ns nt cost_mat"
    and "length p = ns" "length q = nt" "0 < ns" "0 < nt"
    and "solver_contract solver p q epsilon ns nt"
  shows "\<exists>st. adjusted_run solver cost_mat C1 C2 alpha p q ''square_loss'' epsilon max_iter tol log0
             = Inr st
           \<and> (0 \<le> max_iter \<longrightarrow> st_cpt st \<le> max_iter)
           \<and> \<not> (f_less tol (st_err st) \<and> st_cpt st < max_iter)
           \<and> gromov_wasserstein_adjusted solver cost_mat C1 C2 alpha p q ''square_loss'' epsilon
               max_iter tol log0 = Inr (st_T st, st_log st)"
proof -
  obtain n where n: "normalized cost_mat = Inr n" "has_shape ns nt n"
    using has_shape_normalized [OF assms(3,6,7)] by blast
  have init: "has_shape ns nt (st_T (gw_init p q log0))"
    using has_shape_outer [of p q] assms(4,5) by simp
  have step: "\<exists>st'. adjusted_body solver n C1 C2 alpha p q ''square_loss'' epsilon st = Inr st'
           \<and> has_shape ns nt (st_T st')" if "has_shape ns nt (st_T st)" for st
    using adjusted_body_returns [OF assms(1,2) n(2) assms(6,7,8) that] .
  from gw_while_returns [where body = "adjusted_body solver n C1 C2 alpha p q ''square_loss'' epsilon" and ns = ns and nt = nt
        and tol = tol and max_iter = max_iter, OF step init]
  obtain st where st: "gw_while (adjusted_body solver n C1 C2 alpha p q ''square_loss'' epsilon)
        tol max_iter (gw_init p q log0) = Inr st"
      "st_cpt (gw_init p q log0) \<le> max_iter \<longrightarrow> st_cpt st \<le> max_iter"
      "\<not> (f_less tol (st_err st) \<and> st_cpt st < max_iter)"
    by blast
  have run: "adjusted_run solver cost_mat C1 C2 alpha p q ''square_loss'' epsilon max_iter tol log0
      = Inr st"
    using st(1) n(1) assms(1,2,3,6,7) by (simp add: adjusted_run_def has_shape_asarray)
  then have "gromov_wasserstein_adjusted solver cost_mat C1 C2 alpha p q ''square_loss'' epsilon
      max_iter tol log0 = Inr (st_T st, st_log st)"
    by (simp add: gromov_wasserstein_adjusted_def gw_return_def)
  with run st(2,3) show ?thesis by auto
qed

lemma norm_returns:
  assumes "has_shape ns ns C1" "has_shape nt nt C2" "has_shape ns nt cost_mat"
    and "length p = ns" "length q = nt" "0 < ns" "0 < nt"
    and "solver_contract solver p q epsilon ns nt"
  shows "\<exists>st. norm_run solver cost_mat C1 C2 alpha p q ''square_loss'' epsilon max_iter tol log0
             = Inr st
           \<and> (0 \<le> max_iter \<longrightarrow> st_cpt st \<le> max_iter)
           \<and> (alpha \<noteq> Fin 1 \<longrightarrow> \<not> (f_less tol (st_err st) \<and> st_cpt st < max_iter))
           \<and> gromov_wasserstein_adjusted_norm solver cost_mat C1 C2 alpha p q ''square_loss''
               epsilon max_iter tol log0 = Inr (st_T st, st_log st)"
proof -
  obtain n where n: "normalized cost_mat = Inr n" "has_shape ns nt n"
    using has_shape_normalized [OF assms(3,6,7)] by blast
  have "\<exists>st. norm_solve solver n C1 C2 alpha p q ''square_loss'' epsilon max_iter tol log0 = Inr st
           \<and> (0 \<le> max_iter \<longrightarrow> st_cpt st \<le> max_iter)
           \<and> (alpha \<noteq> Fin 1 \<longrightarrow> \<not> (f_less tol (st_err st) \<and> st_cpt st < max_iter))"
  proof (cases "alpha = Fin 1")
    case True
    obtain T where "solver p q n epsilon = Inr T"
      using assms(8) n(2) unfolding solver_contract_def by blast
    then show ?thesis using True by (simp add: norm_solve_def)
  next
    case False
    have init: "has_shape ns nt (st_T (gw_init p q log0))"
      using has_shape_outer [of p q] assms(4,5) by simp
    have step: "\<exists>st'. norm_body solver n C1 C2 alpha p q ''square_loss'' epsilon st = Inr st'
           \<and> has_shape ns nt (st_T st')" if "has_shape ns nt (st_T st)" for st
      using norm_body_returns [OF assms(1,2) n(2) assms(6,7,8) that] .
    from gw_while_returns [where body = "norm_body solver n C1 C2 alpha p q ''square_loss'' epsilon" and ns = ns and nt = nt
        and tol = tol and max_iter = max_iter, OF step init]
    obtain st where "gw_while (norm_body solver n C1 C2 alpha p q ''square_loss'' epsilon)
          tol max_iter (gw_init p q log0) = Inr st"
        "st_cpt (gw_init p q log0) \<le> max_iter \<longrightarrow> st_cpt st \<le> max_iter"
        "\<not> (f_less tol (st_err st) \<and> st_cpt st < max_iter)"
      by blast
    then show ?thesis using False by (auto simp: norm_solve_def)
  qed
  then obtain st where st: "norm_solve solver n C1 C2 alpha p q ''square_loss'' epsilon max_iter
        tol log0 = Inr st"
      "0 \<le> max_iter \<longrightarrow> st_cpt st \<le> max_iter"
      "alpha \<noteq> Fin 1 \<longrightarrow> \<not> (f_less tol (st_err st) \<and> st_cpt st < max_iter)"
    by blast
  have run: "norm_run solver cost_mat C1 C2 alpha p q ''square_loss'' epsilon max_iter tol log0
      = Inr st"
    using st(1) n(1) assms(1,2,3,6,7) by (simp add: norm_run_def has_shape_asarray)
  then have "gromov_wasserstein_adjusted_norm solver cost_mat C1 C2 alpha p q ''square_loss''
      epsilon max_iter tol log0 = Inr (st_T st, st_log st)"
    by (simp add: gromov_wasserstein_adjusted_norm_def gw_return_def)
  with run st(2,3) show ?thesis by auto
qed

lemma combined_returns:
  assumes "has_shape ns ns C1" "has_shape nt nt C2" "has_shape ns nt cost_mat"
    and "length p = ns" "length q = nt" "0 < ns" "0 < nt"
    and "solver_contract solver p q epsilon ns nt"
  shows "\<exists>st. combined_run solver cost_mat C1 C2 alpha p q ''square_loss'' epsilon max_iter tol log0
             = Inr st
           \<and> (0 \<le> max_iter \<longrightarrow> st_cpt st \<le> max_iter)
           \<and> \<not> (f_less tol (st_err st) \<and> st_cpt st < max_iter)
           \<and> gromov_wasserstein_adjusted_combined solver cost_mat C1 C2 alpha p q ''square_loss''
               epsilon max_iter tol log0 = Inr (st_T st, st_log st)"
proof -
  obtain n where n: "normalized cost_mat = Inr n"
    using has_shape_normalized [OF assms(3,6,7)] by blast
  have init: "has_shape ns nt (st_T (gw_init p q log0))"
    using has_shape_outer [of p q] assms(4,5) by simp
  have step: "\<exists>st'. combined_body solver cost_mat C1 C2 alpha p q ''square_loss'' epsilon st = Inr st'
           \<and> has_shape ns nt (st_T st')" if "has_shape ns nt (st_T st)" for st
    using combined_body_returns [OF assms(1,2,3,6,7,8) that] .
  from gw_while_returns [where body = "combined_body solver cost_mat C1 C2 alpha p q ''square_loss'' epsilon" and ns = ns and nt = nt
        and tol = tol and max_iter = max_iter, OF step init]
  obtain st where st: "gw_while (combined_body solver cost_mat C1 C2 alpha p q ''square_loss'' epsilon)
        tol max_iter (gw_init p q log0) = Inr st"
      "st_cpt (gw_init p q log0) \<le> max_iter \<longrightarrow> st_cpt st \<le> max_iter"
      "\<not> (f_less tol (st_err st) \<and> st_cpt st < max_iter)"
    by blast
  have run: "combined_run solver cost_mat C1 C2 alpha p q ''square_loss'' epsilon max_iter tol log0
      = Inr st"
    using st(1) n assms(1,2,3,6,7) by (simp add: combined_run_def has_shape_asarray)
  then have "gromov_wasserstein_adjusted_combined solver cost_mat C1 C2 alpha p q ''square_loss''
      epsilon max_iter tol log0 = Inr (st_T st, st_log st)"
    by (simp add: gromov_wasserstein_adjusted_combined_def gw_return_def)
  with run st(2,3) show ?thesis by auto
qed

text \<open>
  Claim C3. The loop is defined by recursion on \<open>max_iter - cpt\<close>, so every call
  terminates. With arguments of the specified shapes, \<open>loss_fun = 'square_loss'\<close>, a solver
  that returns a coupling of the shape of its cost, and \<open>max_iter \<ge> 1\<close>, each driver
  returns: the loop stops with \<open>cpt \<le> max_iter\<close> and with \<open>err > tol and cpt < max_iter\<close>
  false, and whether it stopped by convergence or by reaching \<open>max_iter\<close>, the result is the
  current coupling \<open>T\<close> with the log.
\<close>

theorem drivers_return_within_max_iter:
  assumes "has_shape ns ns C1" "has_shape nt nt C2" "has_shape ns nt cost_mat"
    and "length p = ns" "length q = nt" "1 \<le> ns" "1 \<le> nt"
    and "solver_contract solver p q epsilon ns nt"
    and "1 \<le> max_iter"
  shows "(\<exists>st. adjusted_run solver cost_mat C1 C2 alpha p q ''square_loss'' epsilon max_iter tol log0
             = Inr st
           \<and> st_cpt st \<le> max_iter
           \<and> \<not> (f_less tol (st_err st) \<and> st_cpt st < max_iter)
           \<and> gromov_wasserstein_adjusted solver cost_mat C1 C2 alpha p q ''square_loss'' epsilon
               max_iter tol log0 = Inr (st_T st, st_log st))
       \<and> (\<exists>st. norm_run solver cost_mat C1 C2 alpha p q ''square_loss'' epsilon max_iter tol log0
             = Inr st
           \<and> st_cpt st \<le> max_iter
           \<and> (alpha \<noteq> Fin 1 \<longrightarrow> \<not> (f_less tol (st_err st) \<and> st_cpt st < max_iter))
           \<and> gromov_wasserstein_adjusted_norm solver cost_mat C1 C2 alpha p q ''square_loss''
               epsilon max_iter tol log0 = Inr (st_T st, st_log st))
       \<and> (\<exists>st. combined_run solver cost_mat C1 C2 alpha p q ''square_loss'' epsilon max_iter tol log0
             = Inr st
           \<and> st_cpt st \<le> max_iter
           \<and> \<not> (f_less tol (st_err st) \<and> st_cpt st < max_iter)
           \<and> gromov_wasserstein_adjusted_combined solver cost_mat C1 C2 alpha p q ''square_loss''
               epsilon max_iter tol log0 = Inr (st_T st, st_log st))"
proof -
  have pos: "0 < ns" "0 < nt" "0 \<le> max_iter" using assms(6,7,9) by simp_all
  show ?thesis
    using adjusted_returns [OF assms(1-5) pos(1,2) assms(8), of alpha max_iter tol log0]
      norm_returns [OF assms(1-5) pos(1,2) assms(8), of alpha max_iter tol log0]
      combined_returns [OF assms(1-5) pos(1,2) assms(8), of alpha max_iter tol log0]
      pos(3)
    by blast
qed

theorem drivers_return_within_max_iter_witness:
  "has_shape 1 1 [[Fin 1]] \<and> length [Fin 1] = 1 \<and> (1::nat) \<le> 1
   \<and> solver_contract echo_solver [Fin 1] [Fin 1] (Fin (1/10)) 1 1 \<and> (1::int) \<le> 3
   \<and> (\<exists>st. adjusted_run echo_solver [[Fin 1]] [[Fin 1]] [[Fin 1]] (Fin (1/2)) [Fin 1] [Fin 1]
             ''square_loss'' (Fin (1/10)) 3 (Fin (1/10^9)) None = Inr st
           \<and> st_cpt st \<le> 3
           \<and> gromov_wasserstein_adjusted echo_solver [[Fin 1]] [[Fin 1]] [[Fin 1]] (Fin (1/2))
               [Fin 1] [Fin 1] ''square_loss'' (Fin (1/10)) 3 (Fin (1/10^9)) None
             = Inr (st_T st, st_log st))"
proof -
  have h: "has_shape 1 1 [[Fin 1]]" "length [Fin 1] = 1" "(1::nat) \<le> 1"
    "solver_contract echo_solver [Fin 1] [Fin 1] (Fin (1/10)) 1 1" "(1::int) \<le> 3"
    by (simp_all add: has_shape_def solver_contract_echo)
  from drivers_return_within_max_iter [OF h(1) h(1) h(1) h(2) h(2) h(3) h(3) h(4) h(5),
      where alpha = "Fin (1/2)" and tol = "Fin (1/10^9)" and ?log0.0 = None] h
  show ?thesis by blast
qed

subsection \<open>The convergence log\<close>

lemma check_error_log_step:
  assumes "check_error T Tprev (st\<lparr>st_T := T, st_tens := t\<rparr>) = Inr st'" "st_T st = Tprev"
  shows "log_step st st'"
proof (cases "st_cpt st mod 10 = 0")
  case False
  with assms have "st' = st\<lparr>st_T := T, st_tens := t\<rparr>" by (simp add: check_error_def)
  with False show ?thesis by (simp add: log_step_def)
next
  case True
  with assms(1) obtain d where d: "np_subtract T Tprev = Inr d"
    and st': "st' = st\<lparr>st_T := T, st_tens := t, st_err := np_linalg_norm d,
      st_log := (case st_log st of None \<Rightarrow> None | Some es \<Rightarrow> Some (es @ [np_linalg_norm d]))\<rparr>"
    by (auto simp: check_error_def Let_def exn_bind_def split: sum.splits)
  have "st_log st' = map_option (\<lambda>es. es @ [np_linalg_norm d]) (st_log st)"
    unfolding st' by (simp split: option.splits)
  with d st' assms(2) True show ?thesis
    unfolding log_step_def by auto
qed

lemma adjusted_body_log_step:
  "adjusted_body solver cost_mat1 C1 C2 alpha p q loss_fun epsilon st = Inr st' \<Longrightarrow> log_step st st'"
  unfolding adjusted_body_def Let_def
  by (auto simp: exn_bind_def split: sum.splits intro: check_error_log_step)

lemma norm_body_log_step:
  "norm_body solver cost_mat_norm C1 C2 alpha p q loss_fun epsilon st = Inr st' \<Longrightarrow> log_step st st'"
  unfolding norm_body_def Let_def
  by (auto simp: exn_bind_def split: sum.splits intro: check_error_log_step)

lemma combined_body_log_step:
  "combined_body solver cost_mat C1 C2 alpha p q loss_fun epsilon st = Inr st' \<Longrightarrow> log_step st st'"
  unfolding combined_body_def Let_def
  by (auto simp: exn_bind_def split: sum.splits intro: check_error_log_step)

lemma ninth_div: "((c::int) + 9) div 10 = c div 10 + (if c mod 10 = 0 then 0 else 1)"
proof -
  define k r where "k = c div 10" and "r = c mod 10"
  have c: "c = 10 * k + r" and r: "0 \<le> r" "r < 10" by (simp_all add: k_def r_def)
  have "c + 9 = 10 * k + (r + 9)" using c by simp
  moreover have "(10 * k + (r + 9)) div 10 = k + (r + 9) div 10" by simp
  ultimately have e1: "(c + 9) div 10 = k + (r + 9) div 10" by (simp only:)
  have e2: "(r + 9) div 10 = (if r = 0 then 0 else 1)"
  proof (cases "r = 0")
    case True then show ?thesis by simp
  next
    case False
    with r have "r + 9 = 10 * 1 + (r - 1)" "0 \<le> r - 1" "r - 1 < 10" by simp_all
    then have "(r + 9) div 10 = 1" by simp
    with False show ?thesis by simp
  qed
  from e1 e2 show ?thesis unfolding k_def r_def by (simp only:)
qed

lemma tenth_step: "((c::int) + 1 + 9) div 10 - (c + 9) div 10 = (if c mod 10 = 0 then 1 else 0)"
proof -
  have "(c + 1 + 9) div 10 = c div 10 + 1" by simp
  then show ?thesis by (simp add: ninth_div)
qed

lemma checks_bound: "(c::int) \<le> m \<Longrightarrow> (c + 9) div 10 \<le> m div 10 + 1"
proof -
  assume "c \<le> m"
  then have "(c + 9) div 10 \<le> (m + 10) div 10" by (intro zdiv_mono1) simp_all
  then show ?thesis by simp
qed

lemma log_step_appends:
  assumes "log_step st st'"
  shows "\<exists>new. st_log st' = map_option (\<lambda>es. es @ new) (st_log st)
           \<and> int (length new) = (st_cpt st + 1 + 9) div 10 - (st_cpt st + 9) div 10"
proof (cases "st_cpt st mod 10 = 0")
  case True
  with assms obtain e where "st_log st' = map_option (\<lambda>es. es @ [e]) (st_log st)"
    unfolding log_step_def by auto
  moreover have "int (length [e]) = (st_cpt st + 1 + 9) div 10 - (st_cpt st + 9) div 10"
    unfolding tenth_step using True by simp
  ultimately show ?thesis by blast
next
  case False
  with assms have "st_log st' = map_option (\<lambda>es. es @ []) (st_log st)"
    unfolding log_step_def by (simp add: option.map_ident)
  moreover have "int (length ([] :: f64 list)) = (st_cpt st + 1 + 9) div 10 - (st_cpt st + 9) div 10"
    unfolding tenth_step using False by simp
  ultimately show ?thesis by blast
qed

lemma gw_while_log:
  assumes "\<And>st st'. body st = Inr st' \<Longrightarrow> log_step st st'"
    and "gw_while body tol max_iter st = Inr st'"
  shows "st_cpt st \<le> st_cpt st'
       \<and> (st_cpt st \<le> max_iter \<longrightarrow> st_cpt st' \<le> max_iter)
       \<and> (\<exists>new. st_log st' = map_option (\<lambda>es. es @ new) (st_log st)
             \<and> int (length new) = (st_cpt st' + 9) div 10 - (st_cpt st + 9) div 10)"
  using assms
proof (induction body tol max_iter st rule: gw_while.induct)
  case (1 body tol max_iter st)
  note step = "1.prems"(1)
  show ?case
  proof (cases "f_less tol (st_err st) \<and> st_cpt st < max_iter")
    case False
    then have "gw_while body tol max_iter st = Inr st"
      by (subst gw_while.simps) auto
    with "1.prems"(2) have e: "st' = st" by simp
    have "st_log st = map_option (\<lambda>es. es @ []) (st_log st)"
      by (simp add: option.map_ident)
    moreover have "int (length ([] :: f64 list)) = (st_cpt st + 9) div 10 - (st_cpt st + 9) div 10"
      by simp
    ultimately have "\<exists>new. st_log st = map_option (\<lambda>es. es @ new) (st_log st)
        \<and> int (length new) = (st_cpt st + 9) div 10 - (st_cpt st + 9) div 10"
      by blast
    then show ?thesis unfolding e by simp
  next
    case True
    from "1.prems"(2) True obtain st1 where st1: "body st = Inr st1"
      "gw_while body tol max_iter (st1\<lparr>st_cpt := st_cpt st + 1\<rparr>) = Inr st'"
      by (subst (asm) gw_while.simps) (auto split: sum.splits)
    let ?st2 = "st1\<lparr>st_cpt := st_cpt st + 1\<rparr>"
    from log_step_appends [OF step [OF st1(1)]]
    obtain n1 where n1: "st_log st1 = map_option (\<lambda>es. es @ n1) (st_log st)"
      "int (length n1) = (st_cpt st + 1 + 9) div 10 - (st_cpt st + 9) div 10"
      by blast
    from "1.IH" [OF True st1(1) step st1(2)]
    obtain n2 where ih: "st_cpt ?st2 \<le> st_cpt st'"
      "st_cpt ?st2 \<le> max_iter \<longrightarrow> st_cpt st' \<le> max_iter"
      "st_log st' = map_option (\<lambda>es. es @ n2) (st_log ?st2)"
      "int (length n2) = (st_cpt st' + 9) div 10 - (st_cpt ?st2 + 9) div 10"
      by blast
    have b: "st_cpt st \<le> st_cpt st'" using ih(1) by simp
    have c: "st_cpt st \<le> max_iter \<longrightarrow> st_cpt st' \<le> max_iter" using ih(2) True by simp
    have l: "st_log st' = map_option (\<lambda>es. es @ (n1 @ n2)) (st_log st)"
      using ih(3) n1(1) by (simp add: option.map_comp comp_def)
    have "int (length (n1 @ n2)) = (st_cpt st' + 9) div 10 - (st_cpt st + 9) div 10"
      using ih(4) n1(2) by simp
    with b c l show ?thesis by blast
  qed
qed

lemma gw_while_log_count:
  assumes "\<And>st st'. body st = Inr st' \<Longrightarrow> log_step st st'"
    and "gw_while body tol max_iter (gw_init p q log0) = Inr st"
  shows "\<exists>new. st_log st = map_option (\<lambda>es. es @ new) log0
           \<and> int (length new) = (st_cpt st + 9) div 10
           \<and> (0 \<le> max_iter \<longrightarrow> int (length new) \<le> max_iter div 10 + 1)"
proof -
  from gw_while_log [OF assms]
  obtain new where c: "0 \<le> max_iter \<longrightarrow> st_cpt st \<le> max_iter"
    and l: "st_log st = map_option (\<lambda>es. es @ new) log0"
    and n: "int (length new) = (st_cpt st + 9) div 10"
    by auto
  have "0 \<le> max_iter \<longrightarrow> int (length new) \<le> max_iter div 10 + 1"
    unfolding n using c by (auto intro: checks_bound)
  with l n show ?thesis by blast
qed

lemma adjusted_log_count:
  assumes "adjusted_run solver cost_mat C1 C2 alpha p q loss_fun epsilon max_iter tol log0
           = Inr st"
  shows "\<exists>new. st_log st = map_option (\<lambda>es. es @ new) log0
           \<and> int (length new) = (st_cpt st + 9) div 10
           \<and> (0 \<le> max_iter \<longrightarrow> int (length new) \<le> max_iter div 10 + 1)"
proof -
  from assms obtain A1 A2 cm1 where
    "gw_while (adjusted_body solver cm1 A1 A2 alpha p q loss_fun epsilon) tol max_iter
       (gw_init p q log0) = Inr st"
    unfolding adjusted_run_def by (auto simp: exn_bind_def split: sum.splits)
  from gw_while_log_count [OF adjusted_body_log_step this] show ?thesis .
qed

lemma combined_log_count:
  assumes "combined_run solver cost_mat C1 C2 alpha p q loss_fun epsilon max_iter tol log0
           = Inr st"
  shows "\<exists>new. st_log st = map_option (\<lambda>es. es @ new) log0
           \<and> int (length new) = (st_cpt st + 9) div 10
           \<and> (0 \<le> max_iter \<longrightarrow> int (length new) \<le> max_iter div 10 + 1)"
proof -
  from assms obtain A1 A2 cm where
    "gw_while (combined_body solver cm A1 A2 alpha p q loss_fun epsilon) tol max_iter
       (gw_init p q log0) = Inr st"
    unfolding combined_run_def by (auto simp: exn_bind_def split: sum.splits)
  from gw_while_log_count [OF combined_body_log_step this] show ?thesis .
qed

lemma norm_log_count:
  assumes "norm_run solver cost_mat C1 C2 alpha p q loss_fun epsilon max_iter tol log0 = Inr st"
  shows "\<exists>new. st_log st = map_option (\<lambda>es. es @ new) log0
           \<and> int (length new) = (st_cpt st + 9) div 10
           \<and> (0 \<le> max_iter \<longrightarrow> int (length new) \<le> max_iter div 10 + 1)"
proof -
  from assms obtain A1 A2 cn where ns: "norm_solve solver cn A1 A2 alpha p q loss_fun epsilon
      max_iter tol log0 = Inr st"
    unfolding norm_run_def Let_def by (auto simp: exn_bind_def split: sum.splits)
  show ?thesis
  proof (cases "alpha = Fin 1")
    case True
    with ns have "st_log st = map_option (\<lambda>es. es @ []) log0" "st_cpt st = 0"
      by (auto simp: norm_solve_def exn_bind_def option.map_ident split: sum.splits)
    moreover have "0 \<le> max_iter \<longrightarrow> 0 \<le> max_iter div 10 + 1"
      by (simp add: pos_imp_zdiv_nonneg_iff)
    ultimately have "st_log st = map_option (\<lambda>es. es @ []) log0
        \<and> int (length ([] :: f64 list)) = (st_cpt st + 9) div 10
        \<and> (0 \<le> max_iter \<longrightarrow> int (length ([] :: f64 list)) \<le> max_iter div 10 + 1)"
      by simp
    then show ?thesis by blast
  next
    case False
    with ns have "gw_while (norm_body solver cn A1 A2 alpha p q loss_fun epsilon) tol max_iter
       (gw_init p q log0) = Inr st"
      by (simp add: norm_solve_def)
    from gw_while_log_count [OF norm_body_log_step this] show ?thesis .
  qed
qed

text \<open>
  Claim C9. In each driver, an iteration whose counter is a multiple of 10 computes the
  difference \<open>T - Tprev\<close> of the new and the previous coupling, stores its norm in \<open>err\<close>
  and, when logging is enabled, appends it to the log; an iteration with any other counter
  leaves \<open>err\<close> and the log as they were. Hence a run extends the log it was given by
  exactly \<open>(cpt + 9) div 10\<close> entries, where \<open>cpt\<close> is the number of iterations executed:
  one entry for each of the counters 0, 10, 20, ... below \<open>cpt\<close>. For \<open>max_iter \<ge> 0\<close> these
  are at most \<open>max_iter div 10 + 1\<close> entries, and the driver returns the log so extended.
\<close>

theorem error_logged_every_tenth_iteration:
  "(\<forall>st st'. adjusted_body solver cost_mat1 C1 C2 alpha p q loss_fun epsilon st = Inr st'
               \<or> norm_body solver cost_mat1 C1 C2 alpha p q loss_fun epsilon st = Inr st'
               \<or> combined_body solver cost_mat1 C1 C2 alpha p q loss_fun epsilon st = Inr st' \<longrightarrow>
      (if st_cpt st mod 10 = 0
       then (\<exists>d. np_subtract (st_T st') (st_T st) = Inr d
               \<and> st_err st' = np_linalg_norm d
               \<and> st_log st' = map_option (\<lambda>es. es @ [np_linalg_norm d]) (st_log st))
       else st_err st' = st_err st \<and> st_log st' = st_log st))
   \<and> (\<forall>st. adjusted_run solver cost_mat C1 C2 alpha p q loss_fun epsilon max_iter tol log0
               = Inr st
             \<or> norm_run solver cost_mat C1 C2 alpha p q loss_fun epsilon max_iter tol log0
               = Inr st
             \<or> combined_run solver cost_mat C1 C2 alpha p q loss_fun epsilon max_iter tol log0
               = Inr st \<longrightarrow>
        (\<exists>new. st_log st = map_option (\<lambda>es. es @ new) log0
           \<and> int (length new) = (st_cpt st + 9) div 10
           \<and> (0 \<le> max_iter \<longrightarrow> int (length new) \<le> max_iter div 10 + 1)))
   \<and> (\<forall>T lg. gromov_wasserstein_adjusted solver cost_mat C1 C2 alpha p q loss_fun epsilon
                 max_iter tol log0 = Inr (T, lg)
               \<or> gromov_wasserstein_adjusted_norm solver cost_mat C1 C2 alpha p q loss_fun
                 epsilon max_iter tol log0 = Inr (T, lg)
               \<or> gromov_wasserstein_adjusted_combined solver cost_mat C1 C2 alpha p q loss_fun
                 epsilon max_iter tol log0 = Inr (T, lg) \<longrightarrow>
        (\<exists>new. lg = map_option (\<lambda>es. es @ new) log0
           \<and> (0 \<le> max_iter \<longrightarrow> int (length new) \<le> max_iter div 10 + 1)))"
proof (intro conjI allI impI)
  fix st st' :: gw_state
  assume "adjusted_body solver cost_mat1 C1 C2 alpha p q loss_fun epsilon st = Inr st'
       \<or> norm_body solver cost_mat1 C1 C2 alpha p q loss_fun epsilon st = Inr st'
       \<or> combined_body solver cost_mat1 C1 C2 alpha p q loss_fun epsilon st = Inr st'"
  then have "log_step st st'"
    by (auto dest: adjusted_body_log_step norm_body_log_step combined_body_log_step)
  then show "if st_cpt st mod 10 = 0
       then (\<exists>d. np_subtract (st_T st') (st_T st) = Inr d
               \<and> st_err st' = np_linalg_norm d
               \<and> st_log st' = map_option (\<lambda>es. es @ [np_linalg_norm d]) (st_log st))
       else st_err st' = st_err st \<and> st_log st' = st_log st"
    by (simp only: log_step_def)
next
  fix st :: gw_state
  assume "adjusted_run solver cost_mat C1 C2 alpha p q loss_fun epsilon max_iter tol log0 = Inr st
       \<or> norm_run solver cost_mat C1 C2 alpha p q loss_fun epsilon max_iter tol log0 = Inr st
       \<or> combined_run solver cost_mat C1 C2 alpha p q loss_fun epsilon max_iter tol log0 = Inr st"
  then show "\<exists>new. st_log st = map_option (\<lambda>es. es @ new) log0
           \<and> int (length new) = (st_cpt st + 9) div 10
           \<and> (0 \<le> max_iter \<longrightarrow> int (length new) \<le> max_iter div 10 + 1)"
    by (elim disjE) (rule adjusted_log_count norm_log_count combined_log_count, assumption)+
next
  fix T lg
  assume "gromov_wasserstein_adjusted solver cost_mat C1 C2 alpha p q loss_fun epsilon
                 max_iter tol log0 = Inr (T, lg)
               \<or> gromov_wasserstein_adjusted_norm solver cost_mat C1 C2 alpha p q loss_fun
                 epsilon max_iter tol log0 = Inr (T, lg)
               \<or> gromov_wasserstein_adjusted_combined solver cost_mat C1 C2 alpha p q loss_fun
                 epsilon max_iter tol log0 = Inr (T, lg)"
  then obtain st where "adjusted_run solver cost_mat C1 C2 alpha p q loss_fun epsilon max_iter
        tol log0 = Inr st
      \<or> norm_run solver cost_mat C1 C2 alpha p q loss_fun epsilon max_iter tol log0 = Inr st
      \<or> combined_run solver cost_mat C1 C2 alpha p q loss_fun epsilon max_iter tol log0 = Inr st"
    and "st_log st = lg"
    unfolding gromov_wasserstein_adjusted_def gromov_wasserstein_adjusted_norm_def
      gromov_wasserstein_adjusted_combined_def
    by (auto simp: exn_bind_def gw_return_def split: sum.splits)
  then have "\<exists>new. st_log st = map_option (\<lambda>es. es @ new) log0
           \<and> int (length new) = (st_cpt st + 9) div 10
           \<and> (0 \<le> max_iter \<longrightarrow> int (length new) \<le> max_iter div 10 + 1)"
    by (elim disjE) (rule adjusted_log_count norm_log_count combined_log_count, assumption)+
  then obtain new where "st_log st = map_option (\<lambda>es. es @ new) log0"
    "0 \<le> max_iter \<longrightarrow> int (length new) \<le> max_iter div 10 + 1"
    by auto
  with \<open>st_log st = lg\<close> have "lg = map_option (\<lambda>es. es @ new) log0
      \<and> (0 \<le> max_iter \<longrightarrow> int (length new) \<le> max_iter div 10 + 1)"
    by simp
  then show "\<exists>new. lg = map_option (\<lambda>es. es @ new) log0
           \<and> (0 \<le> max_iter \<longrightarrow> int (length new) \<le> max_iter div 10 + 1)"
    by (rule exI)
qed

theorem error_logged_every_tenth_iteration_witness:
  "combined_body echo_solver [[Fin 0]] [[Fin 1]] [[Fin 1]] (Fin (1/2)) [Fin 1] [Fin 1]
       ''square_loss'' (Fin (1/10))
       \<lparr>st_T = [[Fin 1]], st_tens = None, st_cpt = 0, st_err = Fin 5, st_log = Some [Fin 7]\<rparr>
     = Inr \<lparr>st_T = [[Fin 0]], st_tens = Some [[Fin 0]], st_cpt = 0, st_err = Fin 1,
            st_log = Some [Fin 7, Fin 1]\<rparr>
   \<and> (\<exists>d. np_subtract [[Fin 0]] [[Fin 1]] = Inr d \<and> Fin 1 = np_linalg_norm d
         \<and> Some [Fin 7, Fin 1] = map_option (\<lambda>es. es @ [np_linalg_norm d]) (Some [Fin 7]))
   \<and> combined_body echo_solver [[Fin 0]] [[Fin 1]] [[Fin 1]] (Fin (1/2)) [Fin 1] [Fin 1]
       ''square_loss'' (Fin (1/10))
       \<lparr>st_T = [[Fin 1]], st_tens = None, st_cpt = 1, st_err = Fin 5, st_log = Some [Fin 7]\<rparr>
     = Inr \<lparr>st_T = [[Fin 0]], st_tens = Some [[Fin 0]], st_cpt = 1, st_err = Fin 5,
            st_log = Some [Fin 7]\<rparr>
   \<and> combined_run echo_solver [[Fin 0]] [[Fin 1]] [[Fin 1]] (Fin (1/2)) [Fin 1] [Fin 1]
       ''square_loss'' (Fin (1/10)) 1000 (Fin (1/10^9)) (Some [Fin 7])
     = Inr \<lparr>st_T = [[Fin 0]], st_tens = Some [[Fin 0]], st_cpt = 11, st_err = Fin 0,
            st_log = Some [Fin 7, Fin 1, Fin 0]\<rparr>
   \<and> (\<exists>new. Some [Fin 7, Fin 1, Fin 0] = map_option (\<lambda>es. es @ new) (Some [Fin 7])
         \<and> int (length new) = (11 + 9) div 10 \<and> int (length new) \<le> 1000 div 10 + 1)
   \<and> gromov_wasserstein_adjusted_combined echo_solver [[Fin 0]] [[Fin 1]] [[Fin 1]] (Fin (1/2))
       [Fin 1] [Fin 1] ''square_loss'' (Fin (1/10)) 1000 (Fin (1/10^9)) (Some [Fin 7])
     = Inr ([[Fin 0]], Some [Fin 7, Fin 1, Fin 0])"
proof -
  have b0: "combined_body echo_solver [[Fin 0]] [[Fin 1]] [[Fin 1]] (Fin (1/2)) [Fin 1] [Fin 1]
       ''square_loss'' (Fin (1/10))
       \<lparr>st_T = [[Fin 1]], st_tens = None, st_cpt = 0, st_err = Fin 5, st_log = Some [Fin 7]\<rparr>
     = Inr \<lparr>st_T = [[Fin 0]], st_tens = Some [[Fin 0]], st_cpt = 0, st_err = Fin 1,
            st_log = Some [Fin 7, Fin 1]\<rparr>"
    by (simp add: driver_defs array_defs)
  have b1: "combined_body echo_solver [[Fin 0]] [[Fin 1]] [[Fin 1]] (Fin (1/2)) [Fin 1] [Fin 1]
       ''square_loss'' (Fin (1/10))
       \<lparr>st_T = [[Fin 1]], st_tens = None, st_cpt = 1, st_err = Fin 5, st_log = Some [Fin 7]\<rparr>
     = Inr \<lparr>st_T = [[Fin 0]], st_tens = Some [[Fin 0]], st_cpt = 1, st_err = Fin 5,
            st_log = Some [Fin 7]\<rparr>"
    by (simp add: driver_defs array_defs)
  have r: "combined_run echo_solver [[Fin 0]] [[Fin 1]] [[Fin 1]] (Fin (1/2)) [Fin 1] [Fin 1]
       ''square_loss'' (Fin (1/10)) 1000 (Fin (1/10^9)) (Some [Fin 7])
     = Inr \<lparr>st_T = [[Fin 0]], st_tens = Some [[Fin 0]], st_cpt = 11, st_err = Fin 0,
            st_log = Some [Fin 7, Fin 1, Fin 0]\<rparr>"
    by (simp add: driver_defs array_defs)
  have g: "gromov_wasserstein_adjusted_combined echo_solver [[Fin 0]] [[Fin 1]] [[Fin 1]]
       (Fin (1/2)) [Fin 1] [Fin 1] ''square_loss'' (Fin (1/10)) 1000 (Fin (1/10^9))
       (Some [Fin 7])
     = Inr ([[Fin 0]], Some [Fin 7, Fin 1, Fin 0])"
    unfolding gromov_wasserstein_adjusted_combined_def r by (simp add: gw_return_def)
  note t = error_logged_every_tenth_iteration [where solver = echo_solver
      and cost_mat = "[[Fin 0]]" and ?cost_mat1.0 = "[[Fin 0]]"
      and ?C1.0 = "[[Fin 1]]" and ?C2.0 = "[[Fin 1]]"
      and alpha = "Fin (1/2)" and p = "[Fin 1]" and q = "[Fin 1]"
      and loss_fun = "''square_loss''" and epsilon = "Fin (1/10)" and tol = "Fin (1/10^9)"
      and max_iter = 1000 and ?log0.0 = "Some [Fin 7]"]
  from t have "\<forall>st st'. combined_body echo_solver [[Fin 0]] [[Fin 1]] [[Fin 1]] (Fin (1/2))
        [Fin 1] [Fin 1] ''square_loss'' (Fin (1/10)) st = Inr st' \<longrightarrow>
      (if st_cpt st mod 10 = 0
       then (\<exists>d. np_subtract (st_T st') (st_T st) = Inr d
               \<and> st_err st' = np_linalg_norm d
               \<and> st_log st' = map_option (\<lambda>es. es @ [np_linalg_norm d]) (st_log st))
       else st_err st' = st_err st \<and> st_log st' = st_log st)"
    by blast
  from this [rule_format, OF b0]
  have 1: "\<exists>d. np_subtract [[Fin 0]] [[Fin 1]] = Inr d \<and> Fin 1 = np_linalg_norm d
         \<and> Some [Fin 7, Fin 1] = map_option (\<lambda>es. es @ [np_linalg_norm d]) (Some [Fin 7])"
    by simp
  from t have "\<forall>st. combined_run echo_solver [[Fin 0]] [[Fin 1]] [[Fin 1]] (Fin (1/2))
        [Fin 1] [Fin 1] ''square_loss'' (Fin (1/10)) 1000 (Fin (1/10^9)) (Some [Fin 7])
        = Inr st \<longrightarrow>
      (\<exists>new. st_log st = map_option (\<lambda>es. es @ new) (Some [Fin 7])
           \<and> int (length new) = (st_cpt st + 9) div 10
           \<and> ((0::int) \<le> 1000 \<longrightarrow> int (length new) \<le> 1000 div 10 + 1))"
    by blast
  from this [rule_format, OF r]
  have 2: "\<exists>new. Some [Fin 7, Fin 1, Fin 0] = map_option (\<lambda>es. es @ new) (Some [Fin 7])
         \<and> int (length new) = (11 + 9) div 10 \<and> int (length new) \<le> 1000 div 10 + 1"
    by simp
  from b0 1 b1 r 2 g show ?thesis by (intro conjI)
qed

end
